theory Spec2Isabelle
  imports Main "HOL-Library.Char_ord" "HOL-Library.Sublist"
begin

section \<open>Strings as byte sequences\<close>

text \<open>
  A Go \<^verbatim>\<open>string\<close> is a sequence of bytes, and so is a HOL \<open>string\<close> (a list of
  8-bit \<open>char\<close>s).  The helpers of package \<^verbatim>\<open>strings\<close> that \<^verbatim>\<open>net/url\<close> calls are given
  for the one-byte separators it passes them.
\<close>

definition HasPrefix :: "string \<Rightarrow> string \<Rightarrow> bool" where
  "HasPrefix s p = (take (length p) s = p)"

definition HasSuffix :: "string \<Rightarrow> string \<Rightarrow> bool" where
  "HasSuffix s p = (length p \<le> length s \<and> drop (length s - length p) s = p)"

text \<open>\<^verbatim>\<open>strings.Cut(s, sep)\<close> for a one-byte \<open>sep\<close>: the text before the first \<open>sep\<close> and
  the text after it; the whole of \<open>s\<close> and the empty string when \<open>sep\<close> does not occur.\<close>

definition Cut :: "string \<Rightarrow> char \<Rightarrow> string \<times> string" where
  "Cut s sep = (takeWhile (\<lambda>c. c \<noteq> sep) s, drop 1 (dropWhile (\<lambda>c. c \<noteq> sep) s))"

text \<open>\<^verbatim>\<open>strings.Index\<close>; \<open>None\<close> stands for the result \<open>-1\<close>.\<close>

fun Index :: "string \<Rightarrow> string \<Rightarrow> nat option" where
  "Index [] sub = (if sub = [] then Some 0 else None)"
| "Index (c # s) sub =
     (if HasPrefix (c # s) sub then Some 0 else map_option Suc (Index s sub))"

text \<open>\<^verbatim>\<open>strings.LastIndex\<close> for a one-byte separator.\<close>

fun LastIndex :: "string \<Rightarrow> char \<Rightarrow> nat option" where
  "LastIndex [] sep = None"
| "LastIndex (c # s) sep =
     (case LastIndex s sep of
        Some i \<Rightarrow> Some (Suc i)
      | None \<Rightarrow> if c = sep then Some 0 else None)"

text \<open>A comparison of bytes as Go writes it, \<^verbatim>\<open>lo <= c && c <= hi\<close>.\<close>

definition between :: "char \<Rightarrow> char \<Rightarrow> char \<Rightarrow> bool" where
  "between lo c hi = (lo \<le> c \<and> c \<le> hi)"

text \<open>\<^verbatim>\<open>strings.ToLower\<close> on ASCII text (a URL scheme holds ASCII letters, digits,
  \<open>+\<close>, \<open>-\<close> and \<open>.\<close> only).\<close>

definition lower :: "char \<Rightarrow> char" where
  "lower c = (if between (CHR ''A'') c (CHR ''Z'') then char_of (of_char c + (32::nat)) else c)"

definition ToLower :: "string \<Rightarrow> string" where
  "ToLower s = map lower s"

section \<open>Package net/url\<close>

text \<open>
  \<^verbatim>\<open>ValidateURL\<close> is a thin wrapper around \<^verbatim>\<open>url.Parse\<close> and \<^verbatim>\<open>URL.String\<close> of Go's
  standard library, so both are embedded here function by function (net/url as of
  Go 1.22).  Errors are values: \<^verbatim>\<open>url.Parse\<close> returns \<open>Inl\<close> of the cause where the Go
  code returns a non-nil \<^verbatim>\<open>error\<close>.
\<close>

datatype url_error =
    InvalidControlCharacter
  | EmptyURL
  | MissingProtocolScheme
  | InvalidURIForRequest
  | FirstPathSegmentColon
  | EscapeError string
  | InvalidHostError string
  | MissingBracketInHost
  | InvalidPort string
  | InvalidUserinfo

datatype encoding =
    encodePath
  | encodePathSegment
  | encodeHost
  | encodeZone
  | encodeUserPassword
  | encodeQueryComponent
  | encodeFragment

record Userinfo =
  username :: string
  password :: string
  passwordSet :: bool

record URL =
  Scheme :: string
  Opaque :: string
  User :: "Userinfo option"
  Host :: string
  Path :: string
  RawPath :: string
  OmitHost :: bool
  ForceQuery :: bool
  RawQuery :: string
  Fragment :: string
  RawFragment :: string

text \<open>\<^verbatim>\<open>new(URL)\<close>: every field at its zero value.\<close>

definition new_URL :: URL where
  "new_URL = \<lparr>Scheme = [], Opaque = [], User = None, Host = [], Path = [], RawPath = [],
     OmitHost = False, ForceQuery = False, RawQuery = [], Fragment = [], RawFragment = []\<rparr>"

definition ishex :: "char \<Rightarrow> bool" where
  "ishex c = (between (CHR ''0'') c (CHR ''9'') \<or> between (CHR ''a'') c (CHR ''f'')
     \<or> between (CHR ''A'') c (CHR ''F''))"

definition unhex :: "char \<Rightarrow> nat" where
  "unhex c =
     (if between (CHR ''0'') c (CHR ''9'') then of_char c - of_char CHR ''0''
      else if between (CHR ''a'') c (CHR ''f'') then of_char c - of_char CHR ''a'' + 10
      else if between (CHR ''A'') c (CHR ''F'') then of_char c - of_char CHR ''A'' + 10
      else 0)"

definition upperhex :: string where
  "upperhex = ''0123456789ABCDEF''"

text \<open>\<^verbatim>\<open>shouldEscape(c, mode)\<close>: whether byte \<open>c\<close> is written as \<open>%XX\<close> in the part of
  a URL that \<open>mode\<close> names.\<close>

definition shouldEscape :: "char \<Rightarrow> encoding \<Rightarrow> bool" where
  "shouldEscape c mode =
     (if between (CHR ''a'') c (CHR ''z'') \<or> between (CHR ''A'') c (CHR ''Z'')
         \<or> between (CHR ''0'') c (CHR ''9'') then False
      else if (mode = encodeHost \<or> mode = encodeZone)
         \<and> c \<in> set [CHR ''!'', CHR ''$'', CHR ''&'', CHR 0x27, CHR ''('', CHR '')'', CHR ''*'',
              CHR ''+'', CHR '','', CHR '';'', CHR ''='', CHR '':'', CHR ''['', CHR '']'',
              CHR ''<'', CHR ''>'', CHR 0x22] then False
      else if c \<in> set [CHR ''-'', CHR ''_'', CHR ''.'', CHR ''~''] then False
      else if c \<in> set [CHR ''$'', CHR ''&'', CHR ''+'', CHR '','', CHR ''/'', CHR '':'',
              CHR '';'', CHR ''='', CHR ''?'', CHR ''@'']
         \<and> mode \<in> set [encodePath, encodePathSegment, encodeUserPassword,
              encodeQueryComponent, encodeFragment] then
        (case mode of
           encodePath \<Rightarrow> c = CHR ''?''
         | encodePathSegment \<Rightarrow> c = CHR ''/'' \<or> c = CHR '';'' \<or> c = CHR '','' \<or> c = CHR ''?''
         | encodeUserPassword \<Rightarrow> c = CHR ''@'' \<or> c = CHR ''/'' \<or> c = CHR ''?'' \<or> c = CHR '':''
         | encodeQueryComponent \<Rightarrow> True
         | _ \<Rightarrow> False)
      else if mode = encodeFragment
         \<and> c \<in> set [CHR ''!'', CHR ''('', CHR '')'', CHR ''*''] then False
      else True)"

text \<open>
  \<^verbatim>\<open>unescape(s, mode)\<close>.  The Go function checks the whole string first and decodes
  it in a second loop; both loops walk the string from the left, so the first error is
  the one returned here, and a string with no \<open>%\<close> (and no \<open>+\<close> of a query component) is
  returned as it is.
\<close>

fun unescape :: "string \<Rightarrow> encoding \<Rightarrow> url_error + string" where
  "unescape [] mode = Inr []"
| "unescape (c # s) mode =
     (if c = CHR ''%'' then
        (case s of
           a # b # rest \<Rightarrow>
             if \<not> ishex a \<or> \<not> ishex b then Inl (EscapeError [c, a, b])
             else if mode = encodeHost \<and> unhex a < 8 \<and> [c, a, b] \<noteq> ''%25'' then
               Inl (EscapeError [c, a, b])
             else if mode = encodeZone \<and> [c, a, b] \<noteq> ''%25''
                 \<and> char_of (unhex a * 16 + unhex b) \<noteq> CHR '' ''
                 \<and> shouldEscape (char_of (unhex a * 16 + unhex b)) encodeHost then
               Inl (EscapeError [c, a, b])
             else
               (case unescape rest mode of
                  Inl e \<Rightarrow> Inl e
                | Inr t \<Rightarrow> Inr (char_of (unhex a * 16 + unhex b) # t))
         | _ \<Rightarrow> Inl (EscapeError (c # s)))
      else if c = CHR ''+'' then
        (case unescape s mode of
           Inl e \<Rightarrow> Inl e
         | Inr t \<Rightarrow> Inr ((if mode = encodeQueryComponent then CHR '' '' else CHR ''+'') # t))
      else if (mode = encodeHost \<or> mode = encodeZone) \<and> c < CHR 0x80
          \<and> shouldEscape c encodeHost then
        Inl (InvalidHostError [c])
      else
        (case unescape s mode of
           Inl e \<Rightarrow> Inl e
         | Inr t \<Rightarrow> Inr (c # t)))"

definition escape_byte :: "encoding \<Rightarrow> char \<Rightarrow> string" where
  "escape_byte mode c =
     (if c = CHR '' '' \<and> mode = encodeQueryComponent then ''+''
      else if shouldEscape c mode then
        [CHR ''%'', upperhex ! ((of_char c :: nat) div 16), upperhex ! ((of_char c :: nat) mod 16)]
      else [c])"

definition escape :: "string \<Rightarrow> encoding \<Rightarrow> string" where
  "escape s mode = concat (map (escape_byte mode) s)"

definition validEncoded :: "string \<Rightarrow> encoding \<Rightarrow> bool" where
  "validEncoded s mode =
     list_all (\<lambda>c.
        c \<in> set [CHR ''!'', CHR ''$'', CHR ''&'', CHR 0x27, CHR ''('', CHR '')'', CHR ''*'',
          CHR ''+'', CHR '','', CHR '';'', CHR ''='', CHR '':'', CHR ''@'']
        \<or> c \<in> set [CHR ''['', CHR '']'']
        \<or> c = CHR ''%''
        \<or> \<not> shouldEscape c mode) s"

text \<open>\<^verbatim>\<open>setPath\<close> and \<^verbatim>\<open>setFragment\<close> store the decoded text, and the text as given
  only when it is not the default encoding of the decoded text.\<close>

definition setPath :: "URL \<Rightarrow> string \<Rightarrow> url_error + URL" where
  "setPath u p =
     (case unescape p encodePath of
        Inl err \<Rightarrow> Inl err
      | Inr path \<Rightarrow>
          Inr (u\<lparr>Path := path, RawPath := (if p = escape path encodePath then [] else p)\<rparr>))"

definition setFragment :: "URL \<Rightarrow> string \<Rightarrow> url_error + URL" where
  "setFragment u f =
     (case unescape f encodeFragment of
        Inl err \<Rightarrow> Inl err
      | Inr frag \<Rightarrow>
          Inr (u\<lparr>Fragment := frag,
                 RawFragment := (if f = escape frag encodeFragment then [] else f)\<rparr>))"

definition EscapedPath :: "URL \<Rightarrow> string" where
  "EscapedPath u =
     (if RawPath u \<noteq> [] \<and> validEncoded (RawPath u) encodePath
         \<and> unescape (RawPath u) encodePath = Inr (Path u) then RawPath u
      else if Path u = ''*'' then ''*''
      else escape (Path u) encodePath)"

definition EscapedFragment :: "URL \<Rightarrow> string" where
  "EscapedFragment u =
     (if RawFragment u \<noteq> [] \<and> validEncoded (RawFragment u) encodeFragment
         \<and> unescape (RawFragment u) encodeFragment = Inr (Fragment u) then RawFragment u
      else escape (Fragment u) encodeFragment)"

definition validOptionalPort :: "string \<Rightarrow> bool" where
  "validOptionalPort port =
     (case port of
        [] \<Rightarrow> True
      | c # ds \<Rightarrow> c = CHR '':'' \<and> list_all (\<lambda>b. between (CHR ''0'') b (CHR ''9'')) ds)"

definition validUserinfo :: "string \<Rightarrow> bool" where
  "validUserinfo s =
     list_all (\<lambda>r.
        between (CHR ''A'') r (CHR ''Z'') \<or> between (CHR ''a'') r (CHR ''z'')
        \<or> between (CHR ''0'') r (CHR ''9'')
        \<or> r \<in> set [CHR ''-'', CHR ''.'', CHR ''_'', CHR '':'', CHR ''~'', CHR ''!'', CHR ''$'',
             CHR ''&'', CHR 0x27, CHR ''('', CHR '')'', CHR ''*'', CHR ''+'', CHR '','',
             CHR '';'', CHR ''='', CHR ''%'', CHR ''@'']) s"

definition stringContainsCTLByte :: "string \<Rightarrow> bool" where
  "stringContainsCTLByte s = list_ex (\<lambda>b. b < CHR '' '' \<or> b = CHR 0x7F) s"

text \<open>
  \<^verbatim>\<open>getScheme(rawURL)\<close>: the loop over the index \<open>i\<close> is the recursion of
  \<open>getScheme_from\<close>, whose second argument is \<^verbatim>\<open>rawURL[:i]\<close> and whose third is
  \<^verbatim>\<open>rawURL[i:]\<close>.
\<close>

fun getScheme_from :: "string \<Rightarrow> string \<Rightarrow> string \<Rightarrow> url_error + string \<times> string" where
  "getScheme_from rawURL pre [] = Inr ([], rawURL)"
| "getScheme_from rawURL pre (c # cs) =
     (if between (CHR ''a'') c (CHR ''z'') \<or> between (CHR ''A'') c (CHR ''Z'') then
        getScheme_from rawURL (pre @ [c]) cs
      else if between (CHR ''0'') c (CHR ''9'') \<or> c = CHR ''+'' \<or> c = CHR ''-'' \<or> c = CHR ''.'' then
        (if pre = [] then Inr ([], rawURL) else getScheme_from rawURL (pre @ [c]) cs)
      else if c = CHR '':'' then
        (if pre = [] then Inl MissingProtocolScheme else Inr (pre, cs))
      else Inr ([], rawURL))"

definition getScheme :: "string \<Rightarrow> url_error + string \<times> string" where
  "getScheme rawURL = getScheme_from rawURL [] rawURL"

definition parseHost :: "string \<Rightarrow> url_error + string" where
  "parseHost host =
     (if HasPrefix host ''['' then
        (case LastIndex host CHR '']'' of
           None \<Rightarrow> Inl MissingBracketInHost
         | Some i \<Rightarrow>
             if \<not> validOptionalPort (drop (i + 1) host) then Inl (InvalidPort (drop (i + 1) host))
             else
               (case Index (take i host) ''%25'' of
                  Some zone \<Rightarrow>
                    (case unescape (take zone host) encodeHost of
                       Inl err \<Rightarrow> Inl err
                     | Inr host1 \<Rightarrow>
                         (case unescape (drop zone (take i host)) encodeZone of
                            Inl err \<Rightarrow> Inl err
                          | Inr host2 \<Rightarrow>
                              (case unescape (drop i host) encodeHost of
                                 Inl err \<Rightarrow> Inl err
                               | Inr host3 \<Rightarrow> Inr (host1 @ host2 @ host3))))
                | None \<Rightarrow> unescape host encodeHost))
      else
        (case LastIndex host CHR '':'' of
           Some i \<Rightarrow>
             if \<not> validOptionalPort (drop i host) then Inl (InvalidPort (drop i host))
             else unescape host encodeHost
         | None \<Rightarrow> unescape host encodeHost))"

definition parseUserinfo :: "string \<Rightarrow> url_error + Userinfo" where
  "parseUserinfo userinfo =
     (if \<not> validUserinfo userinfo then Inl InvalidUserinfo
      else if CHR '':'' \<notin> set userinfo then
        (case unescape userinfo encodeUserPassword of
           Inl err \<Rightarrow> Inl err
         | Inr name \<Rightarrow> Inr \<lparr>username = name, password = [], passwordSet = False\<rparr>)
      else
        (case unescape (fst (Cut userinfo CHR '':'')) encodeUserPassword of
           Inl err \<Rightarrow> Inl err
         | Inr name \<Rightarrow>
             (case unescape (snd (Cut userinfo CHR '':'')) encodeUserPassword of
                Inl err \<Rightarrow> Inl err
              | Inr pw \<Rightarrow> Inr \<lparr>username = name, password = pw, passwordSet = True\<rparr>)))"

text \<open>\<^verbatim>\<open>parseAuthority\<close>: the host is parsed (and its error returned) before the
  user information is looked at.\<close>

definition parseAuthority :: "string \<Rightarrow> url_error + Userinfo option \<times> string" where
  "parseAuthority authority =
     (case LastIndex authority CHR ''@'' of
        None \<Rightarrow>
          (case parseHost authority of
             Inl err \<Rightarrow> Inl err
           | Inr host \<Rightarrow> Inr (None, host))
      | Some i \<Rightarrow>
          (case parseHost (drop (i + 1) authority) of
             Inl err \<Rightarrow> Inl err
           | Inr host \<Rightarrow>
               (case parseUserinfo (take i authority) of
                  Inl err \<Rightarrow> Inl err
                | Inr user \<Rightarrow> Inr (Some user, host))))"

text \<open>
  \<^verbatim>\<open>parse(rawURL, viaRequest)\<close>.  The assignments to \<^verbatim>\<open>url\<close> and \<^verbatim>\<open>rest\<close> are the
  successive \<open>let\<close>s; every \<^verbatim>\<open>return nil, err\<close> is an \<open>Inl\<close>.
\<close>

definition parse :: "string \<Rightarrow> bool \<Rightarrow> url_error + URL" where
  "parse rawURL viaRequest =
     (if stringContainsCTLByte rawURL then Inl InvalidControlCharacter
      else if rawURL = [] \<and> viaRequest then Inl EmptyURL
      else if rawURL = ''*'' then Inr (new_URL\<lparr>Path := ''*''\<rparr>)
      else
        (case getScheme rawURL of
           Inl err \<Rightarrow> Inl err
         | Inr (scheme, rest0) \<Rightarrow>
             let url = new_URL\<lparr>Scheme := ToLower scheme\<rparr>;
                 url = (if HasSuffix rest0 ''?'' \<and> count_list rest0 CHR ''?'' = 1
                        then url\<lparr>ForceQuery := True\<rparr>
                        else url\<lparr>RawQuery := snd (Cut rest0 CHR ''?'')\<rparr>);
                 rest = (if HasSuffix rest0 ''?'' \<and> count_list rest0 CHR ''?'' = 1
                         then butlast rest0
                         else fst (Cut rest0 CHR ''?''))
             in
               if \<not> HasPrefix rest ''/'' \<and> Scheme url \<noteq> [] then Inr (url\<lparr>Opaque := rest\<rparr>)
               else if \<not> HasPrefix rest ''/'' \<and> viaRequest then Inl InvalidURIForRequest
               else if \<not> HasPrefix rest ''/'' \<and> CHR '':'' \<in> set (fst (Cut rest CHR ''/'')) then
                 Inl FirstPathSegmentColon
               else if (Scheme url \<noteq> [] \<or> \<not> viaRequest \<and> \<not> HasPrefix rest ''///'')
                   \<and> HasPrefix rest ''//'' then
                 (let authority = fst (Cut (drop 2 rest) CHR ''/'');
                      rest' = dropWhile (\<lambda>c. c \<noteq> CHR ''/'') (drop 2 rest)
                  in case parseAuthority authority of
                       Inl err \<Rightarrow> Inl err
                     | Inr (user, host) \<Rightarrow> setPath (url\<lparr>User := user, Host := host\<rparr>) rest')
               else if Scheme url \<noteq> [] \<and> HasPrefix rest ''/'' then
                 setPath (url\<lparr>OmitHost := True\<rparr>) rest
               else setPath url rest))"

text \<open>\<^verbatim>\<open>url.Parse\<close>.  The Go function wraps the cause in an \<^verbatim>\<open>*url.Error\<close> that adds
  the operation and the text; the program only tests the error against \<^verbatim>\<open>nil\<close>, so
  the cause stands for it.\<close>

definition Parse :: "string \<Rightarrow> url_error + URL" where
  "Parse rawURL =
     (let u = fst (Cut rawURL CHR ''#''); frag = snd (Cut rawURL CHR ''#'')
      in case parse u False of
           Inl err \<Rightarrow> Inl err
         | Inr url \<Rightarrow> if frag = [] then Inr url else setFragment url frag)"

definition Userinfo_String :: "Userinfo \<Rightarrow> string" where
  "Userinfo_String u =
     escape (username u) encodeUserPassword
     @ (if passwordSet u then '':'' @ escape (password u) encodeUserPassword else [])"

text \<open>\<^verbatim>\<open>URL.String\<close>: \<open>buf\<close> is the \<^verbatim>\<open>strings.Builder\<close>, each \<open>let\<close> one of the
  statements that write to it.\<close>

definition String :: "URL \<Rightarrow> string" where
  "String u =
     (let buf = (if Scheme u \<noteq> [] then Scheme u @ '':'' else []);
          buf =
            (if Opaque u \<noteq> [] then buf @ Opaque u
             else
               let buf =
                     (if Scheme u \<noteq> [] \<or> Host u \<noteq> [] \<or> User u \<noteq> None then
                        (if OmitHost u \<and> Host u = [] \<and> User u = None then buf
                         else
                           buf
                           @ (if Host u \<noteq> [] \<or> Path u \<noteq> [] \<or> User u \<noteq> None then ''//'' else [])
                           @ (case User u of None \<Rightarrow> [] | Some ui \<Rightarrow> Userinfo_String ui @ ''@'')
                           @ (if Host u \<noteq> [] then escape (Host u) encodeHost else []))
                      else buf);
                   path = EscapedPath u;
                   buf = (if path \<noteq> [] \<and> hd path \<noteq> CHR ''/'' \<and> Host u \<noteq> [] then buf @ ''/''
                          else buf);
                   buf = (if buf = [] \<and> CHR '':'' \<in> set (fst (Cut path CHR ''/'')) then buf @ ''./''
                          else buf)
               in buf @ path);
          buf = (if ForceQuery u \<or> RawQuery u \<noteq> [] then buf @ ''?'' @ RawQuery u else buf);
          buf = (if Fragment u \<noteq> [] then buf @ ''#'' @ EscapedFragment u else buf)
      in buf)"

section \<open>The program: URL validation\<close>

text \<open>
  \<^verbatim>\<open>func ValidateURL(input string) (string, error)\<close>: parse, default the scheme to
  \<open>https\<close> when the parsed URL has none, and print the URL.
\<close>

definition ValidateURL :: "string \<Rightarrow> url_error + string" where
  "ValidateURL input =
     (case Parse input of
        Inl err \<Rightarrow> Inl err
      | Inr u \<Rightarrow> Inr (String (if Scheme u = [] then u\<lparr>Scheme := ''https''\<rparr> else u)))"

section \<open>Package encoding/json: marshalling a PayLoad\<close>

text \<open>
  \<^verbatim>\<open>utf8.DecodeRuneInString\<close>: the rune at the head of the string and the number of
  bytes it takes; \<open>(RuneError, 1)\<close> for a byte that starts no valid encoding.
\<close>

definition RuneError :: nat where
  "RuneError = 0xFFFD"

definition continuation :: "char \<Rightarrow> bool" where
  "continuation c = (between (CHR 0x80) c (CHR 0xBF))"

text \<open>The size and the range accepted for the second byte that the table
  \<^verbatim>\<open>first\<close> and \<^verbatim>\<open>acceptRanges\<close> give for a leading byte \<open>\<ge> 0x80\<close>; size \<open>0\<close> stands
  for the entry \<^verbatim>\<open>xx\<close> (invalid).\<close>

definition first :: "char \<Rightarrow> nat \<times> char \<times> char" where
  "first c =
     (if between (CHR 0xC2) c (CHR 0xDF) then (2, CHR 0x80, CHR 0xBF)
      else if c = CHR 0xE0 then (3, CHR 0xA0, CHR 0xBF)
      else if between (CHR 0xE1) c (CHR 0xEC) then (3, CHR 0x80, CHR 0xBF)
      else if c = CHR 0xED then (3, CHR 0x80, CHR 0x9F)
      else if between (CHR 0xEE) c (CHR 0xEF) then (3, CHR 0x80, CHR 0xBF)
      else if c = CHR 0xF0 then (4, CHR 0x90, CHR 0xBF)
      else if between (CHR 0xF1) c (CHR 0xF3) then (4, CHR 0x80, CHR 0xBF)
      else if c = CHR 0xF4 then (4, CHR 0x80, CHR 0x8F)
      else (0, CHR 0x80, CHR 0xBF))"

definition DecodeRuneInString :: "string \<Rightarrow> nat \<times> nat" where
  "DecodeRuneInString s =
     (case s of
        [] \<Rightarrow> (RuneError, 0)
      | s0 # t \<Rightarrow>
          if s0 < CHR 0x80 then (of_char s0, 1)
          else
            (case first s0 of (sz, lo, hi) \<Rightarrow>
               if sz = 0 \<or> length s < sz then (RuneError, 1)
               else if hd t < lo \<or> hi < hd t then (RuneError, 1)
               else if sz \<le> 2 then ((of_char s0 mod 32) * 64 + of_char (hd t) mod 64, 2)
               else if \<not> continuation (t ! 1) then (RuneError, 1)
               else if sz \<le> 3 then
                 ((of_char s0 mod 16) * 4096 + (of_char (hd t) mod 64) * 64
                    + of_char (t ! 1) mod 64, 3)
               else if \<not> continuation (t ! 2) then (RuneError, 1)
               else
                 ((of_char s0 mod 8) * 262144 + (of_char (hd t) mod 64) * 4096
                    + (of_char (t ! 1) mod 64) * 64 + of_char (t ! 2) mod 64, 4)))"

definition hex :: string where
  "hex = ''0123456789abcdef''"

text \<open>\<^verbatim>\<open>htmlSafeSet[b]\<close> for a byte below \<open>0x80\<close>: printable, and none of
  \<open>"\<close>, \<open>&\<close>, \<open><\<close>, \<open>>\<close> and the backslash.\<close>

definition htmlSafeSet :: "char \<Rightarrow> bool" where
  "htmlSafeSet b =
     (CHR '' '' \<le> b \<and> b \<notin> set [CHR 0x22, CHR ''&'', CHR ''<'', CHR ''>'', CHR 0x5C])"

text \<open>What \<^verbatim>\<open>appendString\<close> writes for a byte below \<open>0x80\<close> that is not in
  \<^verbatim>\<open>htmlSafeSet\<close> (\<^verbatim>\<open>json.Marshal\<close> escapes HTML).\<close>

definition escape_ascii :: "char \<Rightarrow> string" where
  "escape_ascii b =
     (if b = CHR 0x5C \<or> b = CHR 0x22 then [CHR 0x5C, b]
      else if b = CHR 0x08 then [CHR 0x5C, CHR ''b'']
      else if b = CHR 0x0C then [CHR 0x5C, CHR ''f'']
      else if b = CHR 0x0A then [CHR 0x5C, CHR ''n'']
      else if b = CHR 0x0D then [CHR 0x5C, CHR ''r'']
      else if b = CHR 0x09 then [CHR 0x5C, CHR ''t'']
      else [CHR 0x5C, CHR ''u'', CHR ''0'', CHR ''0'',
            hex ! ((of_char b :: nat) div 16), hex ! ((of_char b :: nat) mod 16)])"

text \<open>The loop of \<^verbatim>\<open>appendString\<close> over the index \<open>i\<close>; the argument is
  \<^verbatim>\<open>src[i:]\<close>, the result what is appended to \<^verbatim>\<open>dst\<close> from there on.\<close>

function appendString_from :: "string \<Rightarrow> string" where
  "appendString_from [] = []"
| "appendString_from (b # src) =
     (if b < CHR 0x80 then
        (if htmlSafeSet b then b # appendString_from src
         else escape_ascii b @ appendString_from src)
      else
        (case DecodeRuneInString (b # src) of (c, sz) \<Rightarrow>
           if c = RuneError \<and> sz = 1 then
             [CHR 0x5C, CHR ''u'', CHR ''f'', CHR ''f'', CHR ''f'', CHR ''d''] @ appendString_from src
           else if c = 0x2028 \<or> c = 0x2029 then
             [CHR 0x5C, CHR ''u'', CHR ''2'', CHR ''0'', CHR ''2'', hex ! (c mod 16)]
             @ appendString_from (drop (sz - 1) src)
           else take sz (b # src) @ appendString_from (drop (sz - 1) src)))"
  by pat_completeness auto
termination
  by (relation "measure length") auto

definition appendString :: "string \<Rightarrow> string" where
  "appendString src = [CHR 0x22] @ appendString_from src @ [CHR 0x22]"

text \<open>
  \<^verbatim>\<open>type PayLoad struct { Data string `json:"data"`; Buf *bytes.Buffer }\<close>.  The
  pointer \<^verbatim>\<open>Buf\<close> is \<open>None\<close> when nil, and otherwise the address of a buffer.
\<close>

type_synonym addr = nat

record PayLoad =
  Data :: string
  Buf :: "addr option"

text \<open>
  \<^verbatim>\<open>json.Marshal(payload)\<close>.  Both fields of \<^verbatim>\<open>PayLoad\<close> are exported, so both are
  members of the object, in the order of the declaration: \<^verbatim>\<open>Data\<close> under the key of
  its tag, \<^verbatim>\<open>Buf\<close> under its own name.  A nil pointer is written \<open>null\<close>; a
  \<^verbatim>\<open>bytes.Buffer\<close> has no exported field and no marshalling method, so it is written as
  the empty object.  No value of the type makes \<^verbatim>\<open>Marshal\<close> fail.
\<close>

definition Marshal :: "PayLoad \<Rightarrow> string + string" where
  \<open>Marshal payload =
     Inr (''{"data":'' @ appendString (Data payload)
          @ '',"Buf":'' @ (case Buf payload of None \<Rightarrow> ''null'' | Some b \<Rightarrow> ''{}'') @ ''}'')\<close>

section \<open>Packages context, bytes and net/http\<close>

text \<open>
  A context is the background context or a context with a timeout (a
  \<^verbatim>\<open>time.Duration\<close>, an integer of nanoseconds) below a parent.  \<^verbatim>\<open>ctx.Err()\<close> is nil (\<open>None\<close>),
  \<^verbatim>\<open>context.Canceled\<close> or \<^verbatim>\<open>context.DeadlineExceeded\<close>.
\<close>

datatype Context = Background | WithTimeout Context int

datatype ctx_error = Canceled | DeadlineExceeded

definition Second :: int where
  "Second = 1000000000"

text \<open>
  \<^verbatim>\<open>*http.Request\<close>.  \<^verbatim>\<open>URL\<close> is a pointer that can be nil; \<^verbatim>\<open>Header\<close> is a map from
  canonical keys to lists of values; \<^verbatim>\<open>Body\<close> is a reader, here always a
  \<^verbatim>\<open>*bytes.Buffer\<close> wrapped by \<^verbatim>\<open>io.NopCloser\<close>, given by the address of the buffer.
\<close>

record Request =
  Method :: string
  URL :: "URL option"
  Header :: "string \<rightharpoonup> string list"
  Body :: "addr option"
  ContentLength :: nat
  Host :: string
  ctx :: Context

text \<open>
  The objects that the program shares by pointer live in a store: the buffers and the
  requests, each kind addressed by its index.  Allocation appends, so an address once
  given stays valid and a new object never takes the place of an old one.  A
  \<^verbatim>\<open>bytes.Buffer\<close> is given by the bytes it still holds, those that have been written
  and not yet read: reading takes them from the front.
\<close>

record heap =
  buffers :: "string list"
  requests :: "Request list"

definition empty_heap :: heap where
  "empty_heap = \<lparr>buffers = [], requests = []\<rparr>"

text \<open>\<^verbatim>\<open>bytes.NewBuffer(buf)\<close>.\<close>

definition NewBuffer :: "string \<Rightarrow> heap \<Rightarrow> addr \<times> heap" where
  "NewBuffer buf h = (length (buffers h), h\<lparr>buffers := buffers h @ [buf]\<rparr>)"

text \<open>\<^verbatim>\<open>(*bytes.Buffer).Len\<close> of the buffer at an address: the number of bytes not yet
  read.\<close>

definition Len :: "heap \<Rightarrow> addr \<Rightarrow> nat" where
  "Len h b = (if b < length (buffers h) then length (buffers h ! b) else 0)"

text \<open>
  Reading \<open>k\<close> bytes from the buffer at an address, as repeated calls of
  \<^verbatim>\<open>(*bytes.Buffer).Read\<close> do: the bytes read are the first \<open>k\<close> of the buffer (all of
  them when it holds fewer), and they are gone from the buffer afterwards.
\<close>

definition Buffer_Read :: "nat \<Rightarrow> addr \<Rightarrow> heap \<Rightarrow> string \<times> heap" where
  "Buffer_Read k b h =
     (if b < length (buffers h) then
        (take k (buffers h ! b), h\<lparr>buffers := (buffers h)[b := drop k (buffers h ! b)]\<rparr>)
      else ([], h))"

datatype http_error = InvalidMethod string | URLError url_error

text \<open>The bytes of an HTTP token (\<^verbatim>\<open>httpguts.IsTokenRune\<close>).\<close>

definition isToken :: "char \<Rightarrow> bool" where
  "isToken c =
     (between (CHR ''a'') c (CHR ''z'') \<or> between (CHR ''A'') c (CHR ''Z'')
      \<or> between (CHR ''0'') c (CHR ''9'')
      \<or> c \<in> set [CHR ''!'', CHR ''#'', CHR ''$'', CHR ''%'', CHR ''&'', CHR 0x27, CHR ''*'',
           CHR ''+'', CHR ''-'', CHR ''.'', CHR ''^'', CHR ''_'', CHR 0x60, CHR ''|'', CHR ''~''])"

definition validMethod :: "string \<Rightarrow> bool" where
  "validMethod method = (method \<noteq> [] \<and> list_all isToken method)"

definition hasPort :: "string \<Rightarrow> bool" where
  "hasPort s =
     (case LastIndex s CHR '':'' of
        None \<Rightarrow> False
      | Some i \<Rightarrow> (case LastIndex s CHR '']'' of None \<Rightarrow> True | Some j \<Rightarrow> j < i))"

definition removeEmptyPort :: "string \<Rightarrow> string" where
  "removeEmptyPort host =
     (if hasPort host \<and> HasSuffix host '':'' then butlast host else host)"

text \<open>
  \<^verbatim>\<open>http.NewRequestWithContext(ctx, method, url, body)\<close> for a body that is a
  \<^verbatim>\<open>*bytes.Buffer\<close>.  The context is never nil in this program, and the type \<open>Context\<close>
  has no nil, so the check for a nil context has no branch here.
\<close>

definition NewRequestWithContext ::
    "Context \<Rightarrow> string \<Rightarrow> string \<Rightarrow> addr \<Rightarrow> heap \<Rightarrow> (http_error + addr) \<times> heap" where
  "NewRequestWithContext c method url body h =
     (let method = (if method = [] then ''GET'' else method) in
      if \<not> validMethod method then (Inl (InvalidMethod method), h)
      else
        (case Parse url of
           Inl err \<Rightarrow> (Inl (URLError err), h)
         | Inr u0 \<Rightarrow>
             let u = u0\<lparr>URL.Host := removeEmptyPort (URL.Host u0)\<rparr>;
                 req = \<lparr>Method = method, URL = Some u, Header = Map.empty, Body = Some body,
                        ContentLength = Len h body, Host = URL.Host u, ctx = c\<rparr>
             in (Inr (length (requests h)), h\<lparr>requests := requests h @ [req]\<rparr>)))"

text \<open>
  \<^verbatim>\<open>textproto.CanonicalMIMEHeaderKey\<close>: a key of token bytes gets an upper-case letter
  at its start and after each hyphen and lower-case letters elsewhere; any other key is
  left as it is.
\<close>

fun canonical_from :: "bool \<Rightarrow> string \<Rightarrow> string" where
  "canonical_from upper [] = []"
| "canonical_from upper (c # s) =
     (let c' = (if upper \<and> between (CHR ''a'') c (CHR ''z'') then char_of (of_char c - (32::nat))
                else if \<not> upper \<and> between (CHR ''A'') c (CHR ''Z'') then char_of (of_char c + (32::nat))
                else c)
      in c' # canonical_from (c' = CHR ''-'') s)"

definition CanonicalMIMEHeaderKey :: "string \<Rightarrow> string" where
  "CanonicalMIMEHeaderKey s = (if list_all isToken s then canonical_from True s else s)"

text \<open>\<^verbatim>\<open>req.Header.Set(key, value)\<close> on the request at address \<open>r\<close>.\<close>

definition Header_Set :: "addr \<Rightarrow> string \<Rightarrow> string \<Rightarrow> heap \<Rightarrow> heap" where
  "Header_Set r key val h =
     h\<lparr>requests := (requests h)
          [r := (requests h ! r)\<lparr>Header := (Header (requests h ! r))
                                    (CanonicalMIMEHeaderKey key \<mapsto> [val])\<rparr>]\<rparr>"

text \<open>
  \<^verbatim>\<open>(*Request).Clone(ctx)\<close>: a new request object whose fields are those of \<open>r\<close>,
  with the context replaced.  The URL and the header map are copied deeply (they are
  values here); the body is not: the clone holds the same reader, that is, the same
  buffer address.  There is no object at an address outside the store, so the result
  is \<open>None\<close> there.
\<close>

definition Clone :: "addr \<Rightarrow> Context \<Rightarrow> heap \<Rightarrow> (addr \<times> heap) option" where
  "Clone r c h =
     (if r < length (requests h) then
        Some (length (requests h), h\<lparr>requests := requests h @ [(requests h ! r)\<lparr>ctx := c\<rparr>]\<rparr>)
      else None)"

text \<open>The assignment \<^verbatim>\<open>req.URL = u\<close> to the request at address \<open>r\<close>.\<close>

definition set_URL :: "addr \<Rightarrow> URL option \<Rightarrow> heap \<Rightarrow> heap" where
  "set_URL r u h = h\<lparr>requests := (requests h)[r := (requests h ! r)\<lparr>URL := u\<rparr>]\<rparr>"

text \<open>
  What \<^verbatim>\<open>client.Do(req)\<close> does to the store, for the request at address \<open>r\<close>: the
  transport reads the body of the request to write it to the connection, \<open>k\<close> bytes of
  it before \<^verbatim>\<open>Do\<close> returns.  How many is the network's part: none when the connection
  cannot be made, all of them when the request is sent in full.  The body is a
  \<^verbatim>\<open>*bytes.Buffer\<close> behind \<^verbatim>\<open>io.NopCloser\<close>, so closing it does nothing and reading it
  consumes the buffer itself.  The request object is not written to.  There is no
  request at an address outside the store (\<^verbatim>\<open>Do\<close> panics on nil): the result is
  \<open>None\<close>.
\<close>

definition client_Do :: "nat \<Rightarrow> addr \<Rightarrow> heap \<Rightarrow> heap option" where
  "client_Do k r h =
     (if r < length (requests h) then
        Some (case Body (requests h ! r) of
                None \<Rightarrow> h
              | Some b \<Rightarrow> snd (Buffer_Read k b h))
      else None)"

section \<open>The program: the request template\<close>

datatype base_error = ErrorMarshallingJSON string | ErrorCreatingRequest http_error

text \<open>
  \<^verbatim>\<open>func createBaseRequest(ctx context.Context, payload PayLoad) (*http.Request, error)\<close>.
  The function allocates the body buffer and the request, so it takes the store and
  returns it with the result.
\<close>

definition createBaseRequest ::
    "Context \<Rightarrow> PayLoad \<Rightarrow> heap \<Rightarrow> (base_error + addr) \<times> heap" where
  "createBaseRequest c payload h =
     (case Marshal payload of
        Inl err \<Rightarrow> (Inl (ErrorMarshallingJSON err), h)
      | Inr jsonData \<Rightarrow>
          (case NewBuffer jsonData h of (buf, h1) \<Rightarrow>
             (case NewRequestWithContext c ''POST'' ''https://bar.com'' buf h1 of
                (Inl err, h2) \<Rightarrow> (Inl (ErrorCreatingRequest err), h2)
              | (Inr req, h2) \<Rightarrow>
                  (Inr req, Header_Set req ''Content-Type'' ''application/json'' h2))))"

section \<open>The program: the limiter\<close>

text \<open>
  \<^verbatim>\<open>type Semaphore struct { ch chan struct{} }\<close>.  A buffered channel of empty structs
  is its capacity and the number of elements queued in it.  A send on a full channel
  and a receive on an empty one block: the operation has no result (\<open>None\<close>) in such a
  state, and the goroutine can only take the step in a later state.
\<close>

record chan =
  cap :: nat
  len :: nat

record Semaphore =
  ch :: chan

definition NewSemaphore :: "nat \<Rightarrow> Semaphore" where
  "NewSemaphore limit = \<lparr>ch = \<lparr>cap = limit, len = 0\<rparr>\<rparr>"

definition Acquire :: "Semaphore \<Rightarrow> Semaphore option" where
  "Acquire s =
     (if len (ch s) < cap (ch s) then Some (s\<lparr>ch := (ch s)\<lparr>len := len (ch s) + 1\<rparr>\<rparr>) else None)"

definition Release :: "Semaphore \<Rightarrow> Semaphore option" where
  "Release s =
     (if 0 < len (ch s) then Some (s\<lparr>ch := (ch s)\<lparr>len := len (ch s) - 1\<rparr>\<rparr>) else None)"

section \<open>The program: the dispatch worker\<close>

record Location =
  URL :: string

text \<open>
  What the network does to one worker is not decided by the program: whether
  \<^verbatim>\<open>client.Do\<close> returns an error (and its text), what \<^verbatim>\<open>ctx.Err()\<close> returns when the
  worker asks after a failed send, whether \<^verbatim>\<open>io.Copy\<close> fails or which bytes it
  reads, and how many bytes of the request body the transport reads during
  \<^verbatim>\<open>client.Do\<close>.  Every combination is admitted, also those that the transport never
  produces, so what holds for every network holds for the real one.
\<close>

record net =
  Do_err :: "string option"
  ctx_Err :: "ctx_error option"
  Copy_res :: "string + string"
  Do_read :: nat

text \<open>
  The statements of a worker that act on shared state or on the world outside.  A
  worker is the sequence of the statements it executes; the branches it takes depend
  on its target and on the network only, so the sequence is a function of the two.
  \<open>BaseRequestClone c u\<close> stands for the two lines
  \<^verbatim>\<open>req := baseRequest.Clone(ctx); req.URL, _ = url.Parse(validatedURL)\<close>, with \<open>c\<close> the
  context and \<open>u\<close> the result of the parse (\<open>None\<close> for nil).
\<close>

datatype stmt =
    SemaphoreAcquire
  | SemaphoreRelease
  | WgDone
  | LogPrintf string
  | FmtPrintf string
  | ContextWithTimeout int
  | BaseRequestClone Context "URL option"
  | ClientDo
  | IoCopy
  | BodyClose
  | Cancel

text \<open>
  \<^verbatim>\<open>func processLocation(semaphore, wg, loc, baseRequest, client)\<close>.  The deferred
  calls run when the function returns, last deferred first: closing the body (when a
  response arrived), \<^verbatim>\<open>cancel\<close> (when the context was made), the release of the
  semaphore and \<^verbatim>\<open>wg.Done\<close>.
\<close>

definition processLocation :: "net \<Rightarrow> Location \<Rightarrow> stmt list" where
  "processLocation n loc =
     [SemaphoreAcquire]
     @ (case ValidateURL (Location.URL loc) of
          Inl err \<Rightarrow> [LogPrintf (''Invalid URL: '' @ Location.URL loc)]
        | Inr validatedURL \<Rightarrow>
            if validatedURL = ''https://bar.com'' then
              [ContextWithTimeout (5 * Second),
               BaseRequestClone (WithTimeout Background (5 * Second))
                 (case Parse validatedURL of Inl err \<Rightarrow> None | Inr u \<Rightarrow> Some u),
               ClientDo]
              @ (case Do_err n of
                   Some err \<Rightarrow>
                     [LogPrintf
                        (if ctx_Err n = Some DeadlineExceeded
                         then ''Request to '' @ validatedURL @ '' timed out''
                         else ''Error sending request: '' @ err)]
                 | None \<Rightarrow>
                     [IoCopy]
                     @ (case Copy_res n of
                          Inl err \<Rightarrow> [LogPrintf (''Error copying response body: '' @ err)]
                        | Inr body \<Rightarrow> [FmtPrintf (''Received data: '' @ body @ [CHR 0x0A])])
                     @ [BodyClose])
              @ [Cancel]
            else [])
     @ [SemaphoreRelease, WgDone]"

text \<open>The effect of a worker's statements on the semaphore when nothing else runs
  in between; \<open>None\<close> when the worker blocks for ever.\<close>

fun sem_after :: "stmt list \<Rightarrow> Semaphore \<Rightarrow> Semaphore option" where
  "sem_after [] s = Some s"
| "sem_after (c # cs) s =
     (if c = SemaphoreAcquire then
        (case Acquire s of None \<Rightarrow> None | Some s' \<Rightarrow> sem_after cs s')
      else if c = SemaphoreRelease then
        (case Release s of None \<Rightarrow> None | Some s' \<Rightarrow> sem_after cs s')
      else sem_after cs s)"

section \<open>The program: main and the goroutines\<close>

text \<open>
  A worker goroutine: the statements it has executed, the statements it has yet to
  execute, and its local variable \<^verbatim>\<open>req\<close>.
\<close>

record worker =
  hist :: "stmt list"
  todo :: "stmt list"
  req :: "addr option"

text \<open>
  Where \<^verbatim>\<open>main\<close> stands once the template is built: at the head of the loop with the
  locations still to dispatch (at \<^verbatim>\<open>wg.Wait()\<close> when none is left), between
  \<^verbatim>\<open>wg.Add(1)\<close> and the \<^verbatim>\<open>go\<close> statement of a location, or returned.
\<close>

datatype main_pc = Loop "Location list" | Go Location "Location list" | Exited

datatype line = Stderr string | Stdout string

record state =
  semaphore :: Semaphore
  wg :: nat
  store :: heap
  baseRequest :: addr
  out :: "line list"
  workers :: "worker list"
  pc :: main_pc

datatype thread = Main | Worker nat

text \<open>One step of \<^verbatim>\<open>main\<close>.  \<^verbatim>\<open>wg.Wait()\<close> returns only when the counter is zero.
  The \<open>k\<close>-th goroutine started meets the network behaviour \<open>nets k\<close>.\<close>

definition step_main :: "(nat \<Rightarrow> net) \<Rightarrow> state \<Rightarrow> state option" where
  "step_main nets s =
     (case pc s of
        Loop [] \<Rightarrow> if wg s = 0 then Some (s\<lparr>pc := Exited\<rparr>) else None
      | Loop (loc # locs) \<Rightarrow> Some (s\<lparr>wg := wg s + 1, pc := Go loc locs\<rparr>)
      | Go loc locs \<Rightarrow>
          Some (s\<lparr>workers := workers s
                    @ [\<lparr>hist = [], todo = processLocation (nets (length (workers s))) loc,
                        req = None\<rparr>],
                  pc := Loop locs\<rparr>)
      | Exited \<Rightarrow> None)"

text \<open>
  The effect of statement \<open>c\<close> of worker \<open>i\<close>, which meets the network behaviour \<open>n\<close>,
  on the shared state; \<open>None\<close> when the statement cannot be executed in this state.
  \<^verbatim>\<open>wg.Done()\<close> panics on a counter that is zero, and \<^verbatim>\<open>client.Do\<close> on a request that
  is nil.  \<^verbatim>\<open>client.Do(req)\<close> reads the body of the worker's request, which is the
  buffer that the template and every clone share; the reads of one send are taken
  as a whole, and the sends of the workers one after the other.  The context, the
  response and its body, and the buffer \<^verbatim>\<open>payload.Buf\<close> that \<^verbatim>\<open>io.Copy\<close> fills are made
  by the worker and reachable from it alone: they are not objects of the store, and
  the statements that act on them leave the shared state as it is.
\<close>

definition exec :: "net \<Rightarrow> stmt \<Rightarrow> nat \<Rightarrow> state \<Rightarrow> state option" where
  "exec n c i s =
     (case c of
        SemaphoreAcquire \<Rightarrow>
          (case Acquire (semaphore s) of None \<Rightarrow> None | Some m \<Rightarrow> Some (s\<lparr>semaphore := m\<rparr>))
      | SemaphoreRelease \<Rightarrow>
          (case Release (semaphore s) of None \<Rightarrow> None | Some m \<Rightarrow> Some (s\<lparr>semaphore := m\<rparr>))
      | WgDone \<Rightarrow> if 0 < wg s then Some (s\<lparr>wg := wg s - 1\<rparr>) else None
      | LogPrintf msg \<Rightarrow> Some (s\<lparr>out := out s @ [Stderr msg]\<rparr>)
      | FmtPrintf msg \<Rightarrow> Some (s\<lparr>out := out s @ [Stdout msg]\<rparr>)
      | BaseRequestClone c u \<Rightarrow>
          (case Clone (baseRequest s) c (store s) of
             None \<Rightarrow> None
           | Some (r, h) \<Rightarrow>
               Some (s\<lparr>store := set_URL r u h,
                       workers := (workers s)[i := (workers s ! i)\<lparr>req := Some r\<rparr>]\<rparr>))
      | ClientDo \<Rightarrow>
          (case req (workers s ! i) of
             None \<Rightarrow> None
           | Some r \<Rightarrow>
               (case client_Do (Do_read n) r (store s) of
                  None \<Rightarrow> None
                | Some h \<Rightarrow> Some (s\<lparr>store := h\<rparr>)))
      | ContextWithTimeout d \<Rightarrow> Some s
      | IoCopy \<Rightarrow> Some s
      | BodyClose \<Rightarrow> Some s
      | Cancel \<Rightarrow> Some s)"

definition step_worker :: "(nat \<Rightarrow> net) \<Rightarrow> nat \<Rightarrow> state \<Rightarrow> state option" where
  "step_worker nets i s =
     (if i < length (workers s) then
        (case todo (workers s ! i) of
           [] \<Rightarrow> None
         | c # rest \<Rightarrow>
             (case exec (nets i) c i s of
                None \<Rightarrow> None
              | Some s' \<Rightarrow>
                  Some (s'\<lparr>workers := (workers s')
                            [i := (workers s' ! i)\<lparr>hist := hist (workers s' ! i) @ [c],
                                                    todo := rest\<rparr>]\<rparr>)))
      else None)"

definition step :: "(nat \<Rightarrow> net) \<Rightarrow> thread \<Rightarrow> state \<Rightarrow> state option" where
  "step nets t s = (case t of Main \<Rightarrow> step_main nets s | Worker i \<Rightarrow> step_worker nets i s)"

text \<open>An execution is a schedule: the list of the threads that take the steps, in
  order.  Every interleaving of the goroutines is the run of some schedule.\<close>

fun run :: "(nat \<Rightarrow> net) \<Rightarrow> thread list \<Rightarrow> state \<Rightarrow> state option" where
  "run nets [] s = Some s"
| "run nets (t # ts) s =
     (case step nets t s of None \<Rightarrow> None | Some s' \<Rightarrow> run nets ts s')"

text \<open>
  \<^verbatim>\<open>func main()\<close> up to the loop.  The file system and \<^verbatim>\<open>json.Unmarshal\<close> are the
  world's: the result of reading \<^verbatim>\<open>./input.txt\<close>, and the result of decoding its bytes
  into \<^verbatim>\<open>[]Location\<close>.  \<^verbatim>\<open>log.Fatal\<close> prints and exits with status 1; the error it
  prints is the \<open>Inl\<close> result.
\<close>

record world =
  ReadFile :: "string + string"
  Unmarshal :: "string \<Rightarrow> string + Location list"
  nets :: "nat \<Rightarrow> net"

datatype fatal =
    ErrorReadingFile string
  | ErrorParsingJSON string
  | ErrorCreatingBaseRequest base_error

definition main :: "world \<Rightarrow> fatal + state" where
  "main w =
     (case ReadFile w of
        Inl err \<Rightarrow> Inl (ErrorReadingFile err)
      | Inr data \<Rightarrow>
          (case Unmarshal w data of
             Inl err \<Rightarrow> Inl (ErrorParsingJSON err)
           | Inr locations \<Rightarrow>
               (case createBaseRequest Background \<lparr>Data = ''example data'', Buf = None\<rparr>
                       empty_heap of
                  (Inl err, h) \<Rightarrow> Inl (ErrorCreatingBaseRequest err)
                | (Inr base, h) \<Rightarrow>
                    Inr \<lparr>semaphore = NewSemaphore 10, wg = 0, store = h, baseRequest = base,
                         out = [], workers = [], pc = Loop locations\<rparr>)))"


section \<open>Notions used in the statements\<close>

text \<open>The URL that \<^verbatim>\<open>url.Parse\<close> returns for the endpoint \<^verbatim>\<open>"https://bar.com"\<close>.\<close>

definition bar_URL :: URL where
  "bar_URL = new_URL\<lparr>Scheme := ''https'', URL.Host := ''bar.com''\<rparr>"

text \<open>The bytes that the body of the request at address \<open>r\<close> reads.\<close>

definition body_bytes :: "heap \<Rightarrow> addr \<Rightarrow> string" where
  "body_bytes h r = (case Body (requests h ! r) of None \<Rightarrow> [] | Some b \<Rightarrow> buffers h ! b)"

text \<open>The body as the specification words it: the serialization of a record with the
  one member \<open>data\<close>, a string, and nothing more.\<close>

definition spec_body :: "PayLoad \<Rightarrow> string" where
  \<open>spec_body payload = ''{"data":'' @ appendString (Data payload) @ ''}''\<close>

text \<open>A worker holds a slot of the limiter when it has executed more acquisitions
  than releases.\<close>

definition holding :: "worker \<Rightarrow> bool" where
  "holding w = (count_list (hist w) SemaphoreRelease < count_list (hist w) SemaphoreAcquire)"

text \<open>A worker that has executed the clone statement has a request, and the request
  is an object of the store.\<close>

fun is_clone :: "stmt \<Rightarrow> bool" where
  "is_clone (BaseRequestClone c u) = True"
| "is_clone c = False"

definition cloned :: "heap \<Rightarrow> worker \<Rightarrow> bool" where
  "cloned h w =
     (list_ex is_clone (hist w) \<longrightarrow>
        (case req w of None \<Rightarrow> False | Some r \<Rightarrow> r < length (requests h)))"

text \<open>
  What holds in every state that \<^verbatim>\<open>main\<close> and the workers can reach, for a limiter of
  capacity \<open>N\<close>, the locations \<open>locs\<close> read from the input and the network
  behaviours \<open>ns\<close>: the channel holds one element for each worker that holds a slot;
  worker \<open>i\<close> is somewhere along the statements of \<^verbatim>\<open>processLocation\<close> for location \<open>i\<close>;
  \<^verbatim>\<open>main\<close> has started a worker for each location before the one it stands at; the
  counter of the wait group counts the workers that have not finished (and the one
  announced by \<^verbatim>\<open>wg.Add(1)\<close> but not yet started); the template is in the store, and so
  is the request of every worker that has cloned it.
\<close>

definition inv :: "nat \<Rightarrow> (nat \<Rightarrow> net) \<Rightarrow> Location list \<Rightarrow> state \<Rightarrow> bool" where
  "inv N ns locs s \<longleftrightarrow>
     cap (ch (semaphore s)) = N
     \<and> len (ch (semaphore s)) \<le> N
     \<and> len (ch (semaphore s)) = length (filter holding (workers s))
     \<and> (\<forall>i < length (workers s).
           hist (workers s ! i) @ todo (workers s ! i) = processLocation (ns i) (locs ! i))
     \<and> (case pc s of
           Loop ls \<Rightarrow> ls = drop (length (workers s)) locs \<and> length (workers s) \<le> length locs
         | Go l ls \<Rightarrow> l # ls = drop (length (workers s)) locs
         | Exited \<Rightarrow> length (workers s) = length locs \<and> wg s = 0)
     \<and> wg s = length (filter (\<lambda>w. todo w \<noteq> []) (workers s))
                + (case pc s of Go l ls \<Rightarrow> 1 | _ \<Rightarrow> 0)
     \<and> baseRequest s < length (requests (store s))
     \<and> (\<forall>i < length (workers s). cloned (store s) (workers s ! i))"

text \<open>A bound on the number of steps that are left: the statements the workers have
  yet to execute, and for \<^verbatim>\<open>main\<close> two steps and a worker of at most ten statements
  for each location not yet dispatched, and the return from \<^verbatim>\<open>wg.Wait()\<close>.\<close>

definition remaining :: "state \<Rightarrow> nat" where
  "remaining s =
     sum_list (map (\<lambda>w. length (todo w)) (workers s))
     + (case pc s of
          Loop ls \<Rightarrow> 1 + 12 * length ls
        | Go l ls \<Rightarrow> 12 + 12 * length ls
        | Exited \<Rightarrow> 0)"

text \<open>The request that a worker has cloned for itself is an object of the store other
  than the template, and its URL is the parsed endpoint.\<close>

definition clone_ok :: "heap \<Rightarrow> addr \<Rightarrow> worker \<Rightarrow> bool" where
  "clone_ok h base w =
     (case req w of
        None \<Rightarrow> True
      | Some r \<Rightarrow> r < length (requests h) \<and> r \<noteq> base
          \<and> Request.URL (requests h ! r) = Some bar_URL)"

definition clones_ok :: "state \<Rightarrow> bool" where
  "clones_ok s = list_all (clone_ok (store s) (baseRequest s)) (workers s)"

text \<open>
  A world for the examples, after the scenarios of the specification: the input holds
  two locations, one that becomes the endpoint and one that does not parse, and every
  request is answered with the body \<open>ok\<close>.
\<close>

definition scenario :: world where
  "scenario =
     \<lparr>ReadFile = Inr ''[]'',
      Unmarshal = (\<lambda>data. Inr [\<lparr>Location.URL = ''bar.com''\<rparr>, \<lparr>Location.URL = ''::::not a url''\<rparr>]),
      nets = (\<lambda>k. \<lparr>Do_err = None, ctx_Err = None, Copy_res = Inr ''ok'', Do_read = 34\<rparr>)\<rparr>"

text \<open>A world with one location more than the limiter has slots, all of them the
  endpoint.  The request of the first worker is sent in full and answered; the others
  find the body that they share with it consumed, and the transport fails them.\<close>

definition crowd :: world where
  "crowd =
     \<lparr>ReadFile = Inr ''[]'',
      Unmarshal = (\<lambda>data. Inr (replicate 11 \<lparr>Location.URL = ''bar.com''\<rparr>)),
      nets = (\<lambda>k. if k = 0
                then \<lparr>Do_err = None, ctx_Err = None, Copy_res = Inr ''ok'', Do_read = 34\<rparr>
                else \<lparr>Do_err = Some ''http: ContentLength=34 with Body length 0'',
                      ctx_Err = None, Copy_res = Inr [], Do_read = 0\<rparr>)\<rparr>"

section \<open>URL validation\<close>

lemma String_Scheme_prefix:
  "Scheme u \<noteq> [] \<Longrightarrow> prefix (Scheme u @ '':'') (String u)"
  by (simp add: String_def Let_def)

lemma ValidateURL_fails_iff: "ValidateURL raw = Inl err \<longleftrightarrow> Parse raw = Inl err"
  by (simp add: ValidateURL_def split: sum.splits)

lemma Parse_endpoint: "Parse ''https://bar.com'' = Inr bar_URL"
  by code_simp

text \<open>
  C5.  \<^verbatim>\<open>ValidateURL\<close> fails exactly when \<^verbatim>\<open>url.Parse\<close> fails (and with its error).
  When the parse succeeds with a URL that has no scheme, the result is the string form
  of that URL with the scheme set to \<open>https\<close>, and it starts with \<open>https:\<close>; when the
  parsed URL has a scheme, the result is the string form of the parsed URL as it is,
  and it starts with that scheme and a colon.  (The scheme meant is the one of the
  parsed URL: \<^verbatim>\<open>url.Parse\<close> has put it in lower case.)
\<close>

theorem ValidateURL_spec:
  "(\<forall>err. ValidateURL raw = Inl err \<longleftrightarrow> Parse raw = Inl err)
   \<and> (\<forall>u. Parse raw = Inr u \<longrightarrow>
         (Scheme u = [] \<longrightarrow>
            ValidateURL raw = Inr (String (u\<lparr>Scheme := ''https''\<rparr>))
            \<and> prefix ''https:'' (String (u\<lparr>Scheme := ''https''\<rparr>)))
         \<and> (Scheme u \<noteq> [] \<longrightarrow>
            ValidateURL raw = Inr (String u) \<and> prefix (Scheme u @ '':'') (String u)))"
proof (intro conjI allI impI)
  fix err show "ValidateURL raw = Inl err \<longleftrightarrow> Parse raw = Inl err"
    by (rule ValidateURL_fails_iff)
next
  fix u :: URL assume "Parse raw = Inr u" "Scheme u = []"
  then show "ValidateURL raw = Inr (String (u\<lparr>Scheme := ''https''\<rparr>))"
    by (simp add: ValidateURL_def)
next
  fix u :: URL show "prefix ''https:'' (String (u\<lparr>Scheme := ''https''\<rparr>))"
    using String_Scheme_prefix [of "u\<lparr>Scheme := ''https''\<rparr>"] by simp
next
  fix u :: URL assume "Parse raw = Inr u" "Scheme u \<noteq> []"
  then show "ValidateURL raw = Inr (String u)"
    by (simp add: ValidateURL_def)
next
  fix u :: URL assume "Scheme u \<noteq> []"
  then show "prefix (Scheme u @ '':'') (String u)"
    by (rule String_Scheme_prefix)
qed

text \<open>The three cases of C5 at the inputs of the specification's scenarios: a string
  that does not parse, an address with no scheme, and an address with a scheme.\<close>

theorem ValidateURL_spec_witness:
  "ValidateURL ''::::not a url'' = Inl MissingProtocolScheme
   \<and> ValidateURL ''bar.com'' = Inr ''https://bar.com''
   \<and> prefix ''https:'' ''https://bar.com''
   \<and> ValidateURL ''http://other.com'' = Inr ''http://other.com''
   \<and> prefix ''http:'' ''http://other.com''"
proof -
  have 1: "Parse ''::::not a url'' = Inl MissingProtocolScheme"
    by code_simp
  have 2: "Parse ''bar.com'' = Inr (new_URL\<lparr>Path := ''bar.com''\<rparr>)"
    by code_simp
  have 3: "Parse ''http://other.com'' = Inr (new_URL\<lparr>Scheme := ''http'', URL.Host := ''other.com''\<rparr>)"
    by code_simp
  have 4: "String (new_URL\<lparr>Path := ''bar.com'', Scheme := ''https''\<rparr>) = ''https://bar.com''"
    by code_simp
  have 5: "String (new_URL\<lparr>Scheme := ''http'', URL.Host := ''other.com''\<rparr>) = ''http://other.com''"
    by code_simp
  have 6: "Scheme (new_URL\<lparr>Path := ''bar.com''\<rparr>) = []"
    by (simp add: new_URL_def)
  have 7: "Scheme (new_URL\<lparr>Scheme := ''http'', URL.Host := ''other.com''\<rparr>) = ''http''"
    by (simp add: new_URL_def)
  show ?thesis
    using ValidateURL_spec [of "''::::not a url''"] ValidateURL_spec [of "''bar.com''"]
      ValidateURL_spec [of "''http://other.com''"] 1 2 3 4 5 6 7
    by simp
qed

text \<open>
  C10, as stated, fails: an address with no scheme whose path holds a space validates,
  and the validated string does not parse again, because its path has become a host
  and a host admits no \<open>%20\<close>.
\<close>

theorem reparse_counterexample:
  "ValidateURL ''a b'' = Inr ''https://a%20b''
   \<and> Parse ''https://a%20b'' = Inl (EscapeError ''%20'')"
  by code_simp

section \<open>The paths of a worker\<close>

lemma processLocation_invalid:
  "ValidateURL (Location.URL loc) = Inl err \<Longrightarrow>
   processLocation n loc =
     [SemaphoreAcquire, LogPrintf (''Invalid URL: '' @ Location.URL loc), SemaphoreRelease, WgDone]"
  by (simp add: processLocation_def)

lemma processLocation_send_error:
  "ValidateURL (Location.URL loc) = Inr ''https://bar.com'' \<Longrightarrow> Do_err n = Some err \<Longrightarrow>
   processLocation n loc =
     [SemaphoreAcquire, ContextWithTimeout (5 * Second),
      BaseRequestClone (WithTimeout Background (5 * Second)) (Some bar_URL), ClientDo,
      LogPrintf (if ctx_Err n = Some DeadlineExceeded
                 then ''Request to https://bar.com timed out''
                 else ''Error sending request: '' @ err),
      Cancel, SemaphoreRelease, WgDone]"
  by (simp add: processLocation_def Parse_endpoint)

lemma processLocation_shape:
  "\<exists>body. processLocation n loc = SemaphoreAcquire # body @ [SemaphoreRelease, WgDone]
     \<and> SemaphoreAcquire \<notin> set body \<and> SemaphoreRelease \<notin> set body \<and> WgDone \<notin> set body
     \<and> length body \<le> 7"
  by (auto simp: processLocation_def split: sum.splits option.splits)

lemma sem_after_quiet:
  "SemaphoreAcquire \<notin> set body \<Longrightarrow> SemaphoreRelease \<notin> set body \<Longrightarrow>
   sem_after (body @ rest) s = sem_after rest s"
  by (induction body) auto

text \<open>
  C3, as stated, fails: the worker acquires its slot before it validates, so the target
  of the specification's scenario, whose address does not validate, executes the
  acquisition (and the release) around its log line.
\<close>

theorem invalid_target_acquires:
  "ValidateURL ''::::not a url'' = Inl MissingProtocolScheme
   \<and> processLocation \<lparr>Do_err = None, ctx_Err = None, Copy_res = Inr [], Do_read = 34\<rparr>
        \<lparr>Location.URL = ''::::not a url''\<rparr> =
      [SemaphoreAcquire, LogPrintf ''Invalid URL: ::::not a url'', SemaphoreRelease, WgDone]"
  by code_simp

text \<open>
  C3, amended.  For every target the acquisition of a slot is the worker's first
  statement, before the address is validated; a target whose address fails validation
  acquires a slot, logs \<open>Invalid URL\<close> with the address, releases the slot and
  terminates: it sends nothing and logs nothing else.
\<close>

theorem acquire_before_validate:
  "hd (processLocation n loc) = SemaphoreAcquire
   \<and> (\<forall>err. ValidateURL (Location.URL loc) = Inl err \<longrightarrow>
         processLocation n loc =
           [SemaphoreAcquire, LogPrintf (''Invalid URL: '' @ Location.URL loc),
            SemaphoreRelease, WgDone])"
  by (simp add: processLocation_invalid) (simp add: processLocation_def)

theorem acquire_before_validate_witness:
  "ValidateURL ''%zz'' = Inl (EscapeError ''%zz'')
   \<and> processLocation \<lparr>Do_err = None, ctx_Err = None, Copy_res = Inr [], Do_read = 34\<rparr>
        \<lparr>Location.URL = ''%zz''\<rparr> =
      [SemaphoreAcquire, LogPrintf ''Invalid URL: %zz'', SemaphoreRelease, WgDone]"
proof -
  have "ValidateURL ''%zz'' = Inl (EscapeError ''%zz'')"
    by code_simp
  then show ?thesis
    using acquire_before_validate
      [of "\<lparr>Do_err = None, ctx_Err = None, Copy_res = Inr [], Do_read = 34\<rparr>" "\<lparr>Location.URL = ''%zz''\<rparr>"]
    by simp
qed

text \<open>
  C6.  For a target whose address validates to \<open>v\<close>, the worker calls \<^verbatim>\<open>client.Do\<close>
  if and only if \<open>v\<close> is exactly \<open>https://bar.com\<close>; for any other \<open>v\<close> it does nothing
  between the acquisition and the release: no request, no log line, no output.
\<close>

theorem domain_gate:
  "ValidateURL (Location.URL loc) = Inr v \<Longrightarrow>
   (ClientDo \<in> set (processLocation n loc) \<longleftrightarrow> v = ''https://bar.com'')
   \<and> (v \<noteq> ''https://bar.com'' \<longrightarrow>
        processLocation n loc = [SemaphoreAcquire, SemaphoreRelease, WgDone])"
  by (auto simp: processLocation_def split: sum.splits option.splits)

text \<open>C6 at the two scenarios of the specification: \<open>http://other.com\<close> is skipped,
  \<open>bar.com\<close> is sent to.\<close>

theorem domain_gate_witness:
  "ValidateURL ''http://other.com'' = Inr ''http://other.com''
   \<and> processLocation \<lparr>Do_err = None, ctx_Err = None, Copy_res = Inr ''ok'', Do_read = 34\<rparr>
        \<lparr>Location.URL = ''http://other.com''\<rparr> = [SemaphoreAcquire, SemaphoreRelease, WgDone]
   \<and> ValidateURL ''bar.com'' = Inr ''https://bar.com''
   \<and> ClientDo \<in> set (processLocation \<lparr>Do_err = None, ctx_Err = None, Copy_res = Inr ''ok'', Do_read = 34\<rparr>
        \<lparr>Location.URL = ''bar.com''\<rparr>)"
proof -
  have 1: "ValidateURL ''http://other.com'' = Inr ''http://other.com''"
    by code_simp
  have 2: "ValidateURL ''bar.com'' = Inr ''https://bar.com''"
    by code_simp
  show ?thesis
    using 1 2
      domain_gate [of "\<lparr>Location.URL = ''http://other.com''\<rparr>" "''http://other.com''"
        "\<lparr>Do_err = None, ctx_Err = None, Copy_res = Inr ''ok'', Do_read = 34\<rparr>"]
      domain_gate [of "\<lparr>Location.URL = ''bar.com''\<rparr>" "''https://bar.com''"
        "\<lparr>Do_err = None, ctx_Err = None, Copy_res = Inr ''ok'', Do_read = 34\<rparr>"]
    by simp
qed

text \<open>
  C7.  When the send of a worker fails (the address has passed the gate and
  \<^verbatim>\<open>client.Do\<close> returns an error), the worker, whose context has a timeout of five
  seconds, logs one line and terminates through its deferred calls: the timeout line
  exactly when \<^verbatim>\<open>ctx.Err()\<close> is \<^verbatim>\<open>context.DeadlineExceeded\<close>, that is, when the deadline
  of its context has passed, and the line of a send error otherwise.  The two lines
  differ whatever the text of the error.
\<close>

theorem send_failure_classified:
  "ValidateURL (Location.URL loc) = Inr ''https://bar.com'' \<Longrightarrow> Do_err n = Some err \<Longrightarrow>
   processLocation n loc =
     [SemaphoreAcquire, ContextWithTimeout (5 * Second),
      BaseRequestClone (WithTimeout Background (5 * Second)) (Some bar_URL), ClientDo,
      LogPrintf (if ctx_Err n = Some DeadlineExceeded
                 then ''Request to https://bar.com timed out''
                 else ''Error sending request: '' @ err),
      Cancel, SemaphoreRelease, WgDone]
   \<and> ''Request to https://bar.com timed out'' \<noteq> ''Error sending request: '' @ err
   \<and> 5 * Second = 5000000000"
  by (simp add: processLocation_send_error Second_def)

text \<open>C7 at a send that fails after the deadline, and at one that fails before it.\<close>

theorem send_failure_classified_witness:
  "ValidateURL ''bar.com'' = Inr ''https://bar.com''
   \<and> LogPrintf ''Request to https://bar.com timed out''
      \<in> set (processLocation
          \<lparr>Do_err = Some ''context deadline exceeded'', ctx_Err = Some DeadlineExceeded,
            Copy_res = Inr [], Do_read = 0\<rparr> \<lparr>Location.URL = ''bar.com''\<rparr>)
   \<and> LogPrintf ''Error sending request: connection refused''
      \<in> set (processLocation
          \<lparr>Do_err = Some ''connection refused'', ctx_Err = None, Copy_res = Inr [], Do_read = 0\<rparr>
          \<lparr>Location.URL = ''bar.com''\<rparr>)"
proof -
  have 1: "ValidateURL ''bar.com'' = Inr ''https://bar.com''"
    by code_simp
  show ?thesis
    using 1
      send_failure_classified [of "\<lparr>Location.URL = ''bar.com''\<rparr>"
        "\<lparr>Do_err = Some ''context deadline exceeded'', ctx_Err = Some DeadlineExceeded,
          Copy_res = Inr [], Do_read = 0\<rparr>" "''context deadline exceeded''"]
      send_failure_classified [of "\<lparr>Location.URL = ''bar.com''\<rparr>"
        "\<lparr>Do_err = Some ''connection refused'', ctx_Err = None, Copy_res = Inr [], Do_read = 0\<rparr>"
        "''connection refused''"]
    by simp
qed

section \<open>Every interleaving: the invariant\<close>

lemma filter_update_length:
  "i < length xs \<Longrightarrow>
   length (filter P (xs[i := y])) + (if P (xs ! i) then 1 else 0) =
   length (filter P xs) + (if P y then 1 else 0)"
proof (induction xs arbitrary: i)
  case Nil
  then show ?case by simp
next
  case (Cons x xs)
  then show ?case by (cases i) auto
qed

lemma position_in_body:
  assumes "h @ c # rest = body @ [SemaphoreRelease, WgDone]"
    and "SemaphoreRelease \<notin> set body" and "WgDone \<notin> set body"
  shows "(c = SemaphoreRelease \<longrightarrow> h = body \<and> rest = [WgDone])
       \<and> (c = WgDone \<longrightarrow> h = body @ [SemaphoreRelease] \<and> rest = [])
       \<and> (c \<noteq> SemaphoreRelease \<and> c \<noteq> WgDone \<longrightarrow>
            (\<exists>r. rest = r @ [SemaphoreRelease, WgDone] \<and> body = h @ c # r))"
  using assms
  by (auto simp: append_eq_append_conv2 append_eq_Cons_conv Cons_eq_append_conv)

lemma worker_position:
  assumes "h @ c # rest = processLocation n loc"
  shows "(c = SemaphoreAcquire \<longrightarrow>
            h = [] \<and> rest \<noteq> [])
       \<and> (c = SemaphoreRelease \<longrightarrow>
            count_list h SemaphoreAcquire = 1 \<and> count_list h SemaphoreRelease = 0 \<and> rest = [WgDone])
       \<and> (c = WgDone \<longrightarrow>
            count_list h SemaphoreAcquire = 1 \<and> count_list h SemaphoreRelease = 1 \<and> rest = [])
       \<and> (c \<noteq> WgDone \<longrightarrow> rest \<noteq> [])
       \<and> (h \<noteq> [] \<longrightarrow> count_list h SemaphoreAcquire = 1)"
proof -
  obtain body where b: "processLocation n loc = SemaphoreAcquire # body @ [SemaphoreRelease, WgDone]"
    "SemaphoreAcquire \<notin> set body" "SemaphoreRelease \<notin> set body" "WgDone \<notin> set body"
    using processLocation_shape [of n loc] by blast
  show ?thesis
  proof (cases h)
    case Nil
    with assms b show ?thesis by auto
  next
    case (Cons a h')
    with assms b have a: "a = SemaphoreAcquire" and eq: "h' @ c # rest = body @ [SemaphoreRelease, WgDone]"
      by auto
    from position_in_body [OF eq b(3) b(4)] b(2) b(3) show ?thesis
      unfolding Cons a by (auto simp: count_list_0_iff)
  qed
qed


lemma step_worker_cases:
  assumes "step_worker ns i s = Some s'"
  shows "\<exists>c rest w'. i < length (workers s) \<and> todo (workers s ! i) = c # rest
    \<and> exec (ns i) c i s \<noteq> None
    \<and> workers s' = (workers s)[i := w'] \<and> hist w' = hist (workers s ! i) @ [c] \<and> todo w' = rest
    \<and> pc s' = pc s \<and> baseRequest s' = baseRequest s
    \<and> cap (ch (semaphore s')) = cap (ch (semaphore s))
    \<and> (c = SemaphoreAcquire \<longrightarrow> len (ch (semaphore s)) < cap (ch (semaphore s))
          \<and> len (ch (semaphore s')) = len (ch (semaphore s)) + 1)
    \<and> (c = SemaphoreRelease \<longrightarrow> 0 < len (ch (semaphore s))
          \<and> len (ch (semaphore s')) = len (ch (semaphore s)) - 1)
    \<and> (c \<noteq> SemaphoreAcquire \<and> c \<noteq> SemaphoreRelease \<longrightarrow> semaphore s' = semaphore s)
    \<and> (c = WgDone \<longrightarrow> 0 < wg s \<and> wg s' = wg s - 1)
    \<and> (c \<noteq> WgDone \<longrightarrow> wg s' = wg s)
    \<and> length (requests (store s)) \<le> length (requests (store s'))
    \<and> (is_clone c \<longrightarrow> req w' = Some (length (requests (store s)))
          \<and> length (requests (store s)) < length (requests (store s')))
    \<and> (\<not> is_clone c \<longrightarrow> req w' = req (workers s ! i))"
proof -
  from assms have i: "i < length (workers s)"
    by (simp add: step_worker_def split: if_splits)
  from assms i obtain c rest where t: "todo (workers s ! i) = c # rest"
    by (auto simp: step_worker_def split: list.splits)
  from assms i t obtain s1 where e: "exec (ns i) c i s = Some s1"
    and s': "s' = s1\<lparr>workers := (workers s1)
                 [i := (workers s1 ! i)\<lparr>hist := hist (workers s1 ! i) @ [c], todo := rest\<rparr>]\<rparr>"
    by (auto simp: step_worker_def split: option.splits)
  from e s' i have "\<exists>w'. exec (ns i) c i s \<noteq> None
    \<and> workers s' = (workers s)[i := w'] \<and> hist w' = hist (workers s ! i) @ [c] \<and> todo w' = rest
    \<and> pc s' = pc s \<and> baseRequest s' = baseRequest s
    \<and> cap (ch (semaphore s')) = cap (ch (semaphore s))
    \<and> (c = SemaphoreAcquire \<longrightarrow> len (ch (semaphore s)) < cap (ch (semaphore s))
          \<and> len (ch (semaphore s')) = len (ch (semaphore s)) + 1)
    \<and> (c = SemaphoreRelease \<longrightarrow> 0 < len (ch (semaphore s))
          \<and> len (ch (semaphore s')) = len (ch (semaphore s)) - 1)
    \<and> (c \<noteq> SemaphoreAcquire \<and> c \<noteq> SemaphoreRelease \<longrightarrow> semaphore s' = semaphore s)
    \<and> (c = WgDone \<longrightarrow> 0 < wg s \<and> wg s' = wg s - 1)
    \<and> (c \<noteq> WgDone \<longrightarrow> wg s' = wg s)
    \<and> length (requests (store s)) \<le> length (requests (store s'))
    \<and> (is_clone c \<longrightarrow> req w' = Some (length (requests (store s)))
          \<and> length (requests (store s)) < length (requests (store s')))
    \<and> (\<not> is_clone c \<longrightarrow> req w' = req (workers s ! i))"
    by (cases c)
      (auto simp: exec_def Clone_def set_URL_def client_Do_def Buffer_Read_def Acquire_def
         Release_def split: option.splits if_splits)
  with i t show ?thesis by blast
qed

lemma inv_step_main:
  assumes "inv N ns locs s" and "step_main ns s = Some s'"
  shows "inv N ns locs s'"
proof (cases "pc s")
  case (Loop ls)
  show ?thesis
  proof (cases ls)
    case Nil
    with assms(2) Loop have "wg s = 0" and s': "s' = s\<lparr>pc := Exited\<rparr>"
      by (auto simp: step_main_def split: if_splits)
    with assms(1) Loop Nil show ?thesis
      by (auto simp: inv_def)
  next
    case (Cons l ls')
    with assms(2) Loop have s': "s' = s\<lparr>wg := wg s + 1, pc := Go l ls'\<rparr>"
      by (simp add: step_main_def)
    from assms(1) Loop Cons show ?thesis
      unfolding s' by (auto simp: inv_def)
  qed
next
  case (Go l ls)
  with assms(2) have s': "s' = s\<lparr>workers := workers s
       @ [\<lparr>hist = [], todo = processLocation (ns (length (workers s))) l, req = None\<rparr>],
       pc := Loop ls\<rparr>"
    by (simp add: step_main_def)
  from assms Go have d: "l # ls = drop (length (workers s)) locs"
    by (simp add: inv_def)
  then have lt: "length (workers s) < length locs"
    by (metis drop_eq_Nil list.distinct(1) not_le)
  from d lt have l: "l = locs ! length (workers s)" and ls: "ls = drop (Suc (length (workers s))) locs"
    by (simp_all add: Cons_nth_drop_Suc [symmetric])
  obtain body where b: "processLocation (ns (length (workers s))) l
      = SemaphoreAcquire # body @ [SemaphoreRelease, WgDone]"
    using processLocation_shape by blast
  from assms(1) Go lt b l [symmetric] ls show ?thesis
    unfolding s' by (auto simp: inv_def holding_def cloned_def nth_append less_Suc_eq)
next
  case Exited
  with assms show ?thesis by (simp add: step_main_def)
qed

lemma inv_step_worker:
  assumes I: "inv N ns locs s" and st: "step_worker ns i s = Some s'"
  shows "inv N ns locs s'"
proof -
  from st obtain c rest w' where i: "i < length (workers s)"
    and t: "todo (workers s ! i) = c # rest" and ex: "exec (ns i) c i s \<noteq> None"
    and ws: "workers s' = (workers s)[i := w']"
    and h': "hist w' = hist (workers s ! i) @ [c]" and t': "todo w' = rest"
    and pc: "pc s' = pc s" and base: "baseRequest s' = baseRequest s"
    and cp: "cap (ch (semaphore s')) = cap (ch (semaphore s))"
    and acq: "c = SemaphoreAcquire \<longrightarrow> len (ch (semaphore s)) < cap (ch (semaphore s))
          \<and> len (ch (semaphore s')) = len (ch (semaphore s)) + 1"
    and rel: "c = SemaphoreRelease \<longrightarrow> 0 < len (ch (semaphore s))
          \<and> len (ch (semaphore s')) = len (ch (semaphore s)) - 1"
    and oth: "c \<noteq> SemaphoreAcquire \<and> c \<noteq> SemaphoreRelease \<longrightarrow> semaphore s' = semaphore s"
    and dn: "c = WgDone \<longrightarrow> 0 < wg s \<and> wg s' = wg s - 1"
    and ndn: "c \<noteq> WgDone \<longrightarrow> wg s' = wg s"
    and grow: "length (requests (store s)) \<le> length (requests (store s'))"
    and cl: "is_clone c \<longrightarrow> req w' = Some (length (requests (store s)))
          \<and> length (requests (store s)) < length (requests (store s'))"
    and ncl: "\<not> is_clone c \<longrightarrow> req w' = req (workers s ! i)"
    using step_worker_cases [OF st] by blast
  let ?w = "workers s ! i"
  from I i have tr: "hist ?w @ todo ?w = processLocation (ns i) (locs ! i)"
    by (simp add: inv_def)
  note pos = worker_position [OF tr [unfolded t]]
  from I have old: "\<forall>j < length (workers s). cloned (store s) (workers s ! j)"
    unfolding inv_def by blast
  have reqs: "\<forall>j < length (workers s'). cloned (store s') (workers s' ! j)"
  proof (intro allI impI)
    fix j assume "j < length (workers s')"
    then have j: "j < length (workers s)" by (simp add: ws)
    with old have cj: "cloned (store s) (workers s ! j)" by blast
    show "cloned (store s') (workers s' ! j)"
    proof (cases "j = i")
      case True
      show ?thesis
      proof (cases "is_clone c")
        case True
        with cl \<open>j = i\<close> i show ?thesis by (simp add: ws cloned_def)
      next
        case False
        with ncl cj grow \<open>j = i\<close> i show ?thesis
          by (auto simp: ws cloned_def h' split: option.splits)
      qed
    next
      case False
      with cj grow j show ?thesis
        by (auto simp: ws cloned_def split: option.splits)
    qed
  qed
  have cnt: "length (filter holding (workers s')) + (if holding ?w then 1 else 0)
      = length (filter holding (workers s)) + (if holding w' then 1 else 0)"
    unfolding ws by (rule filter_update_length [OF i])
  have cnt2: "length (filter (\<lambda>w. todo w \<noteq> []) (workers s')) + (if todo ?w \<noteq> [] then 1 else 0)
      = length (filter (\<lambda>w. todo w \<noteq> []) (workers s)) + (if todo w' \<noteq> [] then 1 else 0)"
    unfolding ws by (rule filter_update_length [OF i])
  have notex: "pc s \<noteq> Exited"
  proof
    assume "pc s = Exited"
    with I have "wg s = 0" "wg s = length (filter (\<lambda>w. todo w \<noteq> []) (workers s))"
      unfolding inv_def by auto
    then have "length (filter (\<lambda>w. todo w \<noteq> []) (workers s)) = 0"
      by simp
    then have "\<forall>w \<in> set (workers s). todo w = []"
      by (simp add: filter_empty_conv)
    with i t show False by (metis list.distinct(1) nth_mem)
  qed
  have sem: "cap (ch (semaphore s')) = N \<and> len (ch (semaphore s')) \<le> N
      \<and> len (ch (semaphore s')) = length (filter holding (workers s'))"
  proof (cases "c = SemaphoreAcquire")
    case True
    with pos have "\<not> holding ?w" "holding w'"
      by (simp_all add: holding_def h')
    with acq True cnt cp I show ?thesis
      by (auto simp: inv_def)
  next
    case False
    show ?thesis
    proof (cases "c = SemaphoreRelease")
      case True
      with pos have "holding ?w" "\<not> holding w'"
        by (simp_all add: holding_def h')
      with rel True cnt cp I show ?thesis
        by (auto simp: inv_def)
    next
      case False
      with \<open>c \<noteq> SemaphoreAcquire\<close> have "holding w' = holding ?w"
        by (simp add: holding_def h')
      with oth \<open>c \<noteq> SemaphoreAcquire\<close> False cnt cp I show ?thesis
        by (auto simp: inv_def)
    qed
  qed
  have traces: "\<forall>j < length (workers s').
      hist (workers s' ! j) @ todo (workers s' ! j) = processLocation (ns j) (locs ! j)"
  proof (intro allI impI)
    fix j assume "j < length (workers s')"
    then have j: "j < length (workers s)" by (simp add: ws)
    show "hist (workers s' ! j) @ todo (workers s' ! j) = processLocation (ns j) (locs ! j)"
    proof (cases "j = i")
      case True
      with i tr t show ?thesis by (simp add: ws h' t')
    next
      case False
      with j I show ?thesis by (simp add: ws inv_def)
    qed
  qed
  have wgc: "wg s' = length (filter (\<lambda>w. todo w \<noteq> []) (workers s'))
      + (case pc s' of Go l ls \<Rightarrow> 1 | _ \<Rightarrow> 0)"
  proof (cases "c = WgDone")
    case True
    with pos have "rest = []" by simp
    with dn True cnt2 t t' I show ?thesis
      by (auto simp: inv_def pc split: main_pc.splits)
  next
    case False
    with pos have "rest \<noteq> []" by simp
    with ndn False cnt2 t t' I show ?thesis
      by (auto simp: inv_def pc split: main_pc.splits)
  qed
  have mainpc: "(case pc s' of
           Loop ls \<Rightarrow> ls = drop (length (workers s')) locs \<and> length (workers s') \<le> length locs
         | Go l ls \<Rightarrow> l # ls = drop (length (workers s')) locs
         | Exited \<Rightarrow> length (workers s') = length locs \<and> wg s' = 0)"
    using I notex by (auto simp: inv_def pc ws split: main_pc.splits)
  from I grow have "baseRequest s' < length (requests (store s'))"
    by (simp add: inv_def base)
  with sem traces wgc mainpc reqs show ?thesis
    unfolding inv_def by blast
qed

lemma inv_step: "inv N ns locs s \<Longrightarrow> step ns t s = Some s' \<Longrightarrow> inv N ns locs s'"
  by (cases t) (auto simp: step_def intro: inv_step_main inv_step_worker)

lemma inv_run: "inv N ns locs s \<Longrightarrow> run ns sched s = Some s' \<Longrightarrow> inv N ns locs s'"
proof (induction sched arbitrary: s)
  case Nil
  then show ?case by simp
next
  case (Cons t ts)
  then show ?case by (auto split: option.splits dest: inv_step)
qed


lemma inv_init:
  "0 < length (requests h) \<Longrightarrow>
   inv N ns locs \<lparr>semaphore = NewSemaphore N, wg = 0, store = h, baseRequest = 0,
     out = [], workers = [], pc = Loop locs\<rparr>"
  by (simp add: inv_def NewSemaphore_def)


















section \<open>The request template\<close>

lemma removeEmptyPort_bar: "removeEmptyPort ''bar.com'' = ''bar.com''"
  by code_simp

lemma validMethod_POST: "validMethod ''POST''"
  by code_simp

lemma Canonical_Content_Type: "CanonicalMIMEHeaderKey ''Content-Type'' = ''Content-Type''"
  by code_simp

lemma String_bar_URL: "String bar_URL = ''https://bar.com''"
  by code_simp

lemma createBaseRequest_eq:
  "createBaseRequest c payload h =
     (case Marshal payload of Inr json \<Rightarrow>
        (Inr (length (requests h)),
         h\<lparr>buffers := buffers h @ [json],
           requests := requests h
             @ [\<lparr>Method = ''POST'', URL = Some bar_URL,
                 Header = [''Content-Type'' \<mapsto> [''application/json'']],
                 Body = Some (length (buffers h)), ContentLength = length json,
                 Host = ''bar.com'', ctx = c\<rparr>]\<rparr>))"
proof -
  have "URL.Host bar_URL = ''bar.com''" by (simp add: bar_URL_def new_URL_def)
  then show ?thesis
    by (simp add: createBaseRequest_def Marshal_def NewBuffer_def NewRequestWithContext_def
        validMethod_POST Parse_endpoint removeEmptyPort_bar Header_Set_def Len_def
        Canonical_Content_Type nth_append)
qed

text \<open>
  C4 fails on the code at the payload that \<^verbatim>\<open>main\<close> passes.  The template has the
  method \<open>POST\<close>, the placeholder destination \<open>https://bar.com\<close> (parsed), the header
  \<open>Content-Type: application/json\<close> and a body of 34 bytes; but the body is the
  serialization of the whole \<^verbatim>\<open>PayLoad\<close> struct, whose second field \<^verbatim>\<open>Buf\<close> (the buffer
  for the response) is exported and untagged: the body has a member \<open>Buf\<close> after the
  member \<open>data\<close>, and is not the serialization of a record with the one member
  \<open>data\<close>.
\<close>

theorem template_body_has_Buf:
  \<open>(case createBaseRequest Background \<lparr>Data = ''example data'', Buf = None\<rparr> empty_heap of
      (r, h) \<Rightarrow>
        (r, Method (requests h ! 0), Request.URL (requests h ! 0),
         Header (requests h ! 0) ''Content-Type'', body_bytes h 0))
     = (Inr 0, ''POST'', Some bar_URL, Some [''application/json''],
        ''{"data":"example data","Buf":null}'')
   \<and> spec_body \<lparr>Data = ''example data'', Buf = None\<rparr> = ''{"data":"example data"}''\<close>
  by (simp add: createBaseRequest_eq Marshal_def empty_heap_def body_bytes_def spec_body_def
        appendString_def htmlSafeSet_def)

section \<open>Every interleaving: the limiter\<close>

lemma main_Inr:
  assumes "main w = Inr s0"
  shows "\<exists>data locs h. ReadFile w = Inr data \<and> Unmarshal w data = Inr locs
     \<and> 0 < length (requests h)
     \<and> s0 = \<lparr>semaphore = NewSemaphore 10, wg = 0, store = h, baseRequest = 0,
             out = [], workers = [], pc = Loop locs\<rparr>"
  using assms
  by (auto simp: main_def createBaseRequest_eq Marshal_def empty_heap_def split: sum.splits)

lemma main_inv:
  assumes "main w = Inr s0"
  shows "\<exists>data locs. ReadFile w = Inr data \<and> Unmarshal w data = Inr locs
     \<and> inv 10 (nets w) locs s0 \<and> remaining s0 = 1 + 12 * length locs"
proof -
  from main_Inr [OF assms] obtain data locs h where 1: "ReadFile w = Inr data"
    "Unmarshal w data = Inr locs" "0 < length (requests h)"
    and s0: "s0 = \<lparr>semaphore = NewSemaphore 10, wg = 0, store = h, baseRequest = 0,
             out = [], workers = [], pc = Loop locs\<rparr>" by blast
  from inv_init [OF 1(3), of 10 "nets w" locs] have "inv 10 (nets w) locs s0"
    by (simp add: s0)
  moreover have "remaining s0 = 1 + 12 * length locs"
    by (simp add: s0 remaining_def)
  ultimately show ?thesis using 1 by blast
qed

text \<open>
  C1.  For every input list, every behaviour of the network and every schedule of
  \<^verbatim>\<open>main\<close> and the workers, in the state reached the channel of the semaphore has
  capacity 10 and holds at most 10 elements, and the number of workers that have
  acquired a slot and not yet released it is the number of elements in the channel:
  it is never more than 10.
\<close>

theorem limiter_never_exceeded:
  "main w = Inr s0 \<Longrightarrow> run (nets w) sched s0 = Some s \<Longrightarrow>
   cap (ch (semaphore s)) = 10
   \<and> len (ch (semaphore s)) \<le> 10
   \<and> length (filter holding (workers s)) = len (ch (semaphore s))"
proof -
  assume m: "main w = Inr s0" and r: "run (nets w) sched s0 = Some s"
  from main_inv [OF m] obtain locs where "inv 10 (nets w) locs s0" by blast
  from inv_run [OF this r] show ?thesis by (simp add: inv_def)
qed

text \<open>C1 where the limiter is full: eleven workers have been started, ten have
  acquired a slot, and the eleventh cannot take its step.\<close>

theorem limiter_never_exceeded_witness:
  "\<exists>s0 s. main crowd = Inr s0
     \<and> run (nets crowd) (replicate 22 Main @ map Worker [0 ..< 10]) s0 = Some s
     \<and> length (filter holding (workers s)) = 10
     \<and> len (ch (semaphore s)) = 10 \<and> cap (ch (semaphore s)) = 10
     \<and> step (nets crowd) (Worker 10) s = None"
proof -
  have "case main crowd of
          Inl e \<Rightarrow> False
        | Inr s0 \<Rightarrow>
            (case run (nets crowd) (replicate 22 Main @ map Worker [0 ..< 10]) s0 of
               None \<Rightarrow> False
             | Some s \<Rightarrow> length (filter holding (workers s)) = 10
                 \<and> step (nets crowd) (Worker 10) s = None)"
    by code_simp
  then obtain s0 s where 1: "main crowd = Inr s0"
    and 2: "run (nets crowd) (replicate 22 Main @ map Worker [0 ..< 10]) s0 = Some s"
    and 3: "length (filter holding (workers s)) = 10" "step (nets crowd) (Worker 10) s = None"
    by (auto split: sum.splits option.splits)
  from limiter_never_exceeded [OF 1 2] 1 2 3 show ?thesis by auto
qed

subsection \<open>Terminated workers\<close>

lemma finished_worker:
  assumes "inv N ns locs s" and "i < length (workers s)" and "todo (workers s ! i) = []"
  shows "count_list (hist (workers s ! i)) SemaphoreAcquire = 1
     \<and> count_list (hist (workers s ! i)) SemaphoreRelease = 1
     \<and> \<not> holding (workers s ! i)"
proof -
  from assms(1) have "\<forall>i<length (workers s).
      hist (workers s ! i) @ todo (workers s ! i) = processLocation (ns i) (locs ! i)"
    unfolding inv_def by blast
  with assms(2) have "hist (workers s ! i) @ todo (workers s ! i)
      = processLocation (ns i) (locs ! i)"
    by blast
  with assms(3) have h: "hist (workers s ! i) = processLocation (ns i) (locs ! i)"
    by simp
  obtain body where "processLocation (ns i) (locs ! i)
      = SemaphoreAcquire # body @ [SemaphoreRelease, WgDone]"
    "SemaphoreAcquire \<notin> set body" "SemaphoreRelease \<notin> set body"
    using processLocation_shape [of "ns i" "locs ! i"] by blast
  then show ?thesis
    by (simp add: h holding_def count_list_0_iff)
qed

text \<open>
  C2.  Whatever the target and whatever the network does (invalid URL, skipped
  address, timeout, send error, body-read error, success), a worker executes the
  acquisition first, the release as its last statement but one (before \<^verbatim>\<open>wg.Done\<close>), and
  neither in between: one acquisition and one release on every path.  Run from a
  semaphore with a free slot, it leaves the semaphore as it found it.  In every state
  that the program reaches, under every schedule, a worker that has terminated has
  executed exactly one acquisition and exactly one release, and holds no slot.
\<close>

theorem acquire_release_paired:
  "(\<exists>body. processLocation n loc = SemaphoreAcquire # body @ [SemaphoreRelease, WgDone]
      \<and> SemaphoreAcquire \<notin> set body \<and> SemaphoreRelease \<notin> set body)
   \<and> count_list (processLocation n loc) SemaphoreAcquire = 1
   \<and> count_list (processLocation n loc) SemaphoreRelease = 1
   \<and> (len (ch m) < cap (ch m) \<longrightarrow> sem_after (processLocation n loc) m = Some m)
   \<and> (\<forall>s0 s i. main w = Inr s0 \<longrightarrow> run (nets w) sched s0 = Some s \<longrightarrow>
         i < length (workers s) \<longrightarrow> todo (workers s ! i) = [] \<longrightarrow>
         count_list (hist (workers s ! i)) SemaphoreAcquire = 1
         \<and> count_list (hist (workers s ! i)) SemaphoreRelease = 1
         \<and> \<not> holding (workers s ! i))"
proof -
  obtain body where b: "processLocation n loc = SemaphoreAcquire # body @ [SemaphoreRelease, WgDone]"
    "SemaphoreAcquire \<notin> set body" "SemaphoreRelease \<notin> set body"
    using processLocation_shape [of n loc] by blast
  have 1: "\<exists>body. processLocation n loc = SemaphoreAcquire # body @ [SemaphoreRelease, WgDone]
      \<and> SemaphoreAcquire \<notin> set body \<and> SemaphoreRelease \<notin> set body"
    using b by blast
  have 2: "count_list (processLocation n loc) SemaphoreAcquire = 1"
    and 3: "count_list (processLocation n loc) SemaphoreRelease = 1"
    using b by (simp_all add: count_list_0_iff)
  have 4: "len (ch m) < cap (ch m) \<longrightarrow> sem_after (processLocation n loc) m = Some m"
    using b by (simp add: sem_after_quiet Acquire_def Release_def)
  have 5: "count_list (hist (workers s ! i)) SemaphoreAcquire = 1
         \<and> count_list (hist (workers s ! i)) SemaphoreRelease = 1
         \<and> \<not> holding (workers s ! i)"
    if "main w = Inr s0" "run (nets w) sched s0 = Some s" "i < length (workers s)"
      "todo (workers s ! i) = []" for s0 s i
  proof -
    from main_inv [OF that(1)] obtain locs where "inv 10 (nets w) locs s0" by blast
    from finished_worker [OF inv_run [OF this that(2)] that(3) that(4)] show ?thesis .
  qed
  from 1 2 3 4 5 show ?thesis by blast
qed

text \<open>C2 at a worker whose send fails, on the limiter that \<^verbatim>\<open>main\<close> makes, and in the
  scenario once the worker for the invalid address has terminated.\<close>

theorem acquire_release_paired_witness:
  "len (ch (NewSemaphore 10)) < cap (ch (NewSemaphore 10))
   \<and> sem_after
        (processLocation \<lparr>Do_err = Some ''EOF'', ctx_Err = None, Copy_res = Inr [], Do_read = 0\<rparr>
           \<lparr>Location.URL = ''bar.com''\<rparr>)
        (NewSemaphore 10) = Some (NewSemaphore 10)
   \<and> (\<exists>s0 s. main scenario = Inr s0
         \<and> run (nets scenario) [Main, Main, Main, Main, Worker 1, Worker 1, Worker 1, Worker 1] s0
             = Some s
         \<and> todo (workers s ! 1) = []
         \<and> hist (workers s ! 1)
             = [SemaphoreAcquire, LogPrintf ''Invalid URL: ::::not a url'', SemaphoreRelease, WgDone]
         \<and> \<not> holding (workers s ! 1))"
proof -
  let ?sched = "[Main, Main, Main, Main, Worker 1, Worker 1, Worker 1, Worker 1]"
  note inst = acquire_release_paired
    [of "\<lparr>Do_err = Some ''EOF'', ctx_Err = None, Copy_res = Inr [], Do_read = 0\<rparr>"
        "\<lparr>Location.URL = ''bar.com''\<rparr>" "NewSemaphore 10" scenario ?sched]
  have 0: "len (ch (NewSemaphore 10)) < cap (ch (NewSemaphore 10))"
    by (simp add: NewSemaphore_def)
  from inst 0 have 1: "sem_after
        (processLocation \<lparr>Do_err = Some ''EOF'', ctx_Err = None, Copy_res = Inr [], Do_read = 0\<rparr>
           \<lparr>Location.URL = ''bar.com''\<rparr>)
        (NewSemaphore 10) = Some (NewSemaphore 10)"
    by simp
  have "case main scenario of
          Inl e \<Rightarrow> False
        | Inr s0 \<Rightarrow>
            (case run (nets scenario) ?sched s0 of
               None \<Rightarrow> False
             | Some s \<Rightarrow> length (workers s) = 2 \<and> todo (workers s ! 1) = []
                 \<and> hist (workers s ! 1)
                   = [SemaphoreAcquire, LogPrintf ''Invalid URL: ::::not a url'',
                      SemaphoreRelease, WgDone])"
    by code_simp
  then obtain s0 s where 2: "main scenario = Inr s0"
    and 3: "run (nets scenario) ?sched s0 = Some s"
    and 4: "length (workers s) = 2" and 5: "todo (workers s ! 1) = []"
    and 6: "hist (workers s ! 1)
             = [SemaphoreAcquire, LogPrintf ''Invalid URL: ::::not a url'', SemaphoreRelease, WgDone]"
    by (auto simp del: run.simps split: sum.splits option.splits)
  from 4 have 7: "1 < length (workers s)" by simp
  from inst [THEN conjunct2, THEN conjunct2, THEN conjunct2, THEN conjunct2, THEN spec, THEN spec,
      THEN spec, THEN mp, THEN mp, THEN mp, THEN mp, OF 2 3 7 5]
  have 8: "\<not> holding (workers s ! 1)" by simp
  show ?thesis
  proof (intro conjI exI)
    show "main scenario = Inr s0" by (rule 2)
    show "run (nets scenario) ?sched s0 = Some s" by (rule 3)
    show "todo (workers s ! 1) = []" by (rule 5)
    show "hist (workers s ! 1)
             = [SemaphoreAcquire, LogPrintf ''Invalid URL: ::::not a url'', SemaphoreRelease, WgDone]"
      by (rule 6)
    show "\<not> holding (workers s ! 1)" by (rule 8)
  qed (rule 0, rule 1)
qed

section \<open>Every interleaving: the exit of the process\<close>






section \<open>Every interleaving: the shared template\<close>


lemma exec_frame:
  assumes "exec n c i s = Some s1"
  shows "baseRequest s1 = baseRequest s
     \<and> length (requests (store s)) \<le> length (requests (store s1))
     \<and> (\<forall>a < length (requests (store s)). requests (store s1) ! a = requests (store s) ! a)
     \<and> (c \<noteq> ClientDo \<longrightarrow> buffers (store s1) = buffers (store s))"
  using assms
  by (cases c)
    (auto simp: exec_def Clone_def set_URL_def client_Do_def Buffer_Read_def nth_append
       Acquire_def Release_def split: if_splits option.splits)

lemma step_frame:
  assumes "step ns t s = Some s'"
  shows "baseRequest s' = baseRequest s
     \<and> length (requests (store s)) \<le> length (requests (store s'))
     \<and> (\<forall>a < length (requests (store s)). requests (store s') ! a = requests (store s) ! a)
     \<and> (buffers (store s') = buffers (store s)
        \<or> (\<exists>i rest. t = Worker i \<and> i < length (workers s)
              \<and> todo (workers s ! i) = ClientDo # rest))"
proof (cases t)
  case Main
  with assms show ?thesis
    by (auto simp: step_def step_main_def split: main_pc.splits list.splits if_splits)
next
  case (Worker i)
  with assms have sw: "step_worker ns i s = Some s'" by (simp add: step_def)
  then have i: "i < length (workers s)"
    by (simp add: step_worker_def split: if_splits)
  from sw i obtain c rest where t: "todo (workers s ! i) = c # rest"
    by (auto simp: step_worker_def split: list.splits)
  from sw i t obtain s1 where e: "exec (ns i) c i s = Some s1"
    and s': "s' = s1\<lparr>workers := (workers s1)
                 [i := (workers s1 ! i)\<lparr>hist := hist (workers s1 ! i) @ [c], todo := rest\<rparr>]\<rparr>"
    by (auto simp: step_worker_def split: option.splits)
  from exec_frame [OF e] i t Worker show ?thesis
    by (cases "c = ClientDo") (simp_all add: s')
qed

lemma run_frame:
  "run ns sched s = Some s' \<Longrightarrow>
   baseRequest s' = baseRequest s
     \<and> length (requests (store s)) \<le> length (requests (store s'))
     \<and> (\<forall>a < length (requests (store s)). requests (store s') ! a = requests (store s) ! a)"
proof (induction sched arbitrary: s)
  case Nil
  then show ?case by simp
next
  case (Cons t ts)
  then obtain s1 where 1: "step ns t s = Some s1" and 2: "run ns ts s1 = Some s'"
    by (auto split: option.splits)
  from step_frame [OF 1] Cons.IH [OF 2] show ?case by auto
qed






text \<open>
  The send is another matter.  The clone holds the reader of the template, not a copy
  of it, and \<^verbatim>\<open>client.Do\<close> reads the body of the clone: the bytes it reads are gone from
  the one buffer that the template and all the clones share.  In the scenario, once
  the first worker has sent its request, the template object is as it was built and
  its body has no bytes left.
\<close>

lemma send_reads_shared_body:
  assumes "exec n ClientDo i s = Some s'"
  shows "\<exists>r. req (workers s ! i) = Some r \<and> r < length (requests (store s))
     \<and> requests (store s') = requests (store s)
     \<and> (case Body (requests (store s) ! r) of
          None \<Rightarrow> buffers (store s') = buffers (store s)
        | Some b \<Rightarrow>
            buffers (store s') =
              (if b < length (buffers (store s))
               then (buffers (store s))[b := drop (Do_read n) (buffers (store s) ! b)]
               else buffers (store s)))"
  using assms
  by (auto simp: exec_def client_Do_def Buffer_Read_def split: option.splits if_splits)

lemma send_consumes_shared_body:
  "\<exists>s0 s. main scenario = Inr s0
     \<and> run (nets scenario) [Main, Main, Worker 0, Worker 0, Worker 0, Worker 0] s0 = Some s
     \<and> hist (workers s ! 0)
         = [SemaphoreAcquire, ContextWithTimeout (5 * Second),
            BaseRequestClone (WithTimeout Background (5 * Second)) (Some bar_URL), ClientDo]
     \<and> length (body_bytes (store s0) 0) = 34
     \<and> body_bytes (store s) 0 = []
     \<and> requests (store s) ! 0 = requests (store s0) ! 0"
proof -
  have "case main scenario of
          Inl e \<Rightarrow> False
        | Inr s0 \<Rightarrow>
            (case run (nets scenario) [Main, Main, Worker 0, Worker 0, Worker 0, Worker 0] s0 of
               None \<Rightarrow> False
             | Some s \<Rightarrow>
                 hist (workers s ! 0)
                   = [SemaphoreAcquire, ContextWithTimeout (5 * Second),
                      BaseRequestClone (WithTimeout Background (5 * Second)) (Some bar_URL),
                      ClientDo]
                 \<and> length (body_bytes (store s0) 0) = 34
                 \<and> body_bytes (store s) 0 = []
                 \<and> Body (requests (store s) ! 0) = Some 0)"
    by code_simp
  then obtain s0 s where 1: "main scenario = Inr s0"
    and 2: "run (nets scenario) [Main, Main, Worker 0, Worker 0, Worker 0, Worker 0] s0 = Some s"
    and 3: "hist (workers s ! 0)
         = [SemaphoreAcquire, ContextWithTimeout (5 * Second),
            BaseRequestClone (WithTimeout Background (5 * Second)) (Some bar_URL), ClientDo]"
      "length (body_bytes (store s0) 0) = 34" "body_bytes (store s) 0 = []"
    by (auto simp del: run.simps split: sum.splits option.splits)
  from main_Inr [OF 1] have "0 < length (requests (store s0))" by auto
  with run_frame [OF 2] have "requests (store s) ! 0 = requests (store s0) ! 0" by simp
  with 1 2 3 show ?thesis by blast
qed

section \<open>Every interleaving: the clones\<close>

lemma clone_stmt_URL:
  assumes "h @ BaseRequestClone c u # rest = processLocation n loc"
  shows "u = Some bar_URL"
proof -
  have "BaseRequestClone c u \<in> set (h @ BaseRequestClone c u # rest)" by simp
  with assms have "BaseRequestClone c u \<in> set (processLocation n loc)" by simp
  then show ?thesis
    by (auto simp: processLocation_def Parse_endpoint split: sum.splits option.splits if_splits)
qed

lemma list_all_update:
  "list_all P xs \<Longrightarrow> P y \<Longrightarrow> list_all P (xs[i := y])"
  by (induction xs arbitrary: i) (auto split: nat.splits)

lemma clones_ok_step_main:
  assumes "clones_ok s" and "step_main ns s = Some s'"
  shows "clones_ok s'"
  using assms
  by (auto simp: clones_ok_def clone_ok_def step_main_def
      split: main_pc.splits list.splits if_splits)

lemma clone_ok_grow:
  "clone_ok h base w \<Longrightarrow> clone_ok (h\<lparr>requests := requests h @ [x]\<rparr>) base w"
  by (auto simp: clone_ok_def nth_append split: option.splits)

lemma clones_ok_step_worker:
  assumes C: "clones_ok s" and I: "inv N ns locs s" and st: "step_worker ns i s = Some s'"
  shows "clones_ok s'"
proof -
  from st have i: "i < length (workers s)"
    by (simp add: step_worker_def split: if_splits)
  from st i obtain c rest where t: "todo (workers s ! i) = c # rest"
    by (auto simp: step_worker_def split: list.splits)
  from st i t obtain s1 where e: "exec (ns i) c i s = Some s1"
    and s': "s' = s1\<lparr>workers := (workers s1)
                 [i := (workers s1 ! i)\<lparr>hist := hist (workers s1 ! i) @ [c], todo := rest\<rparr>]\<rparr>"
    by (auto simp: step_worker_def split: option.splits)
  from I i have "hist (workers s ! i) @ todo (workers s ! i) = processLocation (ns i) (locs ! i)"
    by (simp add: inv_def)
  with t have tr: "hist (workers s ! i) @ c # rest = processLocation (ns i) (locs ! i)"
    by simp
  have s1: "clones_ok s1"
  proof (cases "\<exists>c0 u. c = BaseRequestClone c0 u")
    case False
    with e have "requests (store s1) = requests (store s) \<and> baseRequest s1 = baseRequest s
        \<and> workers s1 = workers s"
      by (cases c)
        (auto simp: exec_def client_Do_def Buffer_Read_def split: option.splits if_splits)
    with C show ?thesis
      by (auto simp: clones_ok_def list_all_iff clone_ok_def split: option.splits)
  next
    case True
    then obtain c0 u where c: "c = BaseRequestClone c0 u" by blast
    from clone_stmt_URL [OF tr [unfolded c]] have u: "u = Some bar_URL" .
    from I have b: "baseRequest s < length (requests (store s))" by (simp add: inv_def)
    let ?r = "length (requests (store s))"
    let ?x = "(requests (store s) ! baseRequest s)\<lparr>ctx := c0, Request.URL := u\<rparr>"
    from e b have 1: "baseRequest s1 = baseRequest s"
      and 2: "store s1 = (store s)\<lparr>requests := requests (store s) @ [?x]\<rparr>"
      and 3: "workers s1 = (workers s)[i := (workers s ! i)\<lparr>req := Some ?r\<rparr>]"
      by (auto simp: c exec_def Clone_def set_URL_def)
    from C have old: "list_all (clone_ok (store s1) (baseRequest s1)) (workers s)"
      unfolding clones_ok_def list_all_iff 1 2 by (auto intro: clone_ok_grow)
    have new: "clone_ok (store s1) (baseRequest s1) ((workers s ! i)\<lparr>req := Some ?r\<rparr>)"
      using b by (simp add: 1 2 u clone_ok_def)
    from list_all_update [OF old new] show ?thesis
      by (simp add: clones_ok_def 3)
  qed
  have "list_all (clone_ok (store s1) (baseRequest s1)) ((workers s1)
                 [i := (workers s1 ! i)\<lparr>hist := hist (workers s1 ! i) @ [c], todo := rest\<rparr>])"
  proof (rule list_all_update)
    from s1 show "list_all (clone_ok (store s1) (baseRequest s1)) (workers s1)"
      by (simp add: clones_ok_def)
    from e i have "i < length (workers s1)"
      by (cases c) (auto simp: exec_def Clone_def split: option.splits if_splits)
    with s1 have "clone_ok (store s1) (baseRequest s1) (workers s1 ! i)"
      by (simp add: clones_ok_def list_all_length)
    then show "clone_ok (store s1) (baseRequest s1)
        ((workers s1 ! i)\<lparr>hist := hist (workers s1 ! i) @ [c], todo := rest\<rparr>)"
      by (simp add: clone_ok_def)
  qed
  then show ?thesis by (simp add: clones_ok_def s')
qed

lemma clones_ok_run:
  "clones_ok s \<Longrightarrow> inv N ns locs s \<Longrightarrow> run ns sched s = Some s' \<Longrightarrow> clones_ok s'"
proof (induction sched arbitrary: s)
  case Nil
  then show ?case by simp
next
  case (Cons t ts)
  from Cons.prems(3) obtain s1 where 1: "step ns t s = Some s1" and 2: "run ns ts s1 = Some s'"
    by (auto split: option.splits)
  from 1 Cons.prems(1,2) have "clones_ok s1"
    by (cases t) (auto simp: step_def intro: clones_ok_step_main clones_ok_step_worker)
  from Cons.IH [OF this inv_step [OF Cons.prems(2) 1] 2] show ?case .
qed

text \<open>
  C10, amended.  Parsing the output of \<^verbatim>\<open>ValidateURL\<close> can fail, but the worker parses
  it again only behind the gate, where it is \<open>https://bar.com\<close>, and that string
  parses: on every path on which a worker clones the template, the URL it assigns to
  the clone is the parsed endpoint and not nil, so the error it discards is nil.  In
  every state that the program reaches, the request of every worker that has cloned
  one is an object of the store other than the template, and its URL is the parsed
  endpoint.
\<close>

theorem worker_reparse_succeeds:
  "Parse ''https://bar.com'' = Inr bar_URL
   \<and> (\<forall>c u. BaseRequestClone c u \<in> set (processLocation n loc) \<longrightarrow> u = Some bar_URL)
   \<and> (\<forall>s0 s i r. main w = Inr s0 \<longrightarrow> run (nets w) sched s0 = Some s \<longrightarrow>
         i < length (workers s) \<longrightarrow> req (workers s ! i) = Some r \<longrightarrow>
         r < length (requests (store s)) \<and> r \<noteq> baseRequest s
         \<and> Request.URL (requests (store s) ! r) = Some bar_URL)"
proof (intro conjI allI impI)
  show "Parse ''https://bar.com'' = Inr bar_URL" by (rule Parse_endpoint)
next
  fix c u assume "BaseRequestClone c u \<in> set (processLocation n loc)"
  then show "u = Some bar_URL"
    by (auto simp: processLocation_def Parse_endpoint split: sum.splits option.splits if_splits)
next
  fix s0 s i r
  assume m: "main w = Inr s0" and r: "run (nets w) sched s0 = Some s"
    and i: "i < length (workers s)" and q: "req (workers s ! i) = Some r"
  from main_inv [OF m] obtain locs where I: "inv 10 (nets w) locs s0" by blast
  from main_Inr [OF m] have "clones_ok s0" by (auto simp: clones_ok_def)
  from clones_ok_run [OF this I r] i q
  have "r < length (requests (store s)) \<and> r \<noteq> baseRequest s
         \<and> Request.URL (requests (store s) ! r) = Some bar_URL"
    by (auto simp: clones_ok_def clone_ok_def list_all_length split: option.splits)
  then show "r < length (requests (store s))" "r \<noteq> baseRequest s"
    "Request.URL (requests (store s) ! r) = Some bar_URL" by simp_all
qed

text \<open>C10, amended, at the worker for \<open>bar.com\<close> and in the state of the scenario in
  which it has cloned the template.\<close>

theorem worker_reparse_succeeds_witness:
  "BaseRequestClone (WithTimeout Background (5 * Second))
       (case Parse ''https://bar.com'' of Inl err \<Rightarrow> None | Inr u \<Rightarrow> Some u)
     \<in> set (processLocation \<lparr>Do_err = None, ctx_Err = None, Copy_res = Inr ''ok'', Do_read = 34\<rparr>
              \<lparr>Location.URL = ''bar.com''\<rparr>)
   \<and> (case Parse ''https://bar.com'' of Inl err \<Rightarrow> None | Inr u \<Rightarrow> Some u) = Some bar_URL
   \<and> (\<exists>s0 s. main scenario = Inr s0
         \<and> run (nets scenario) [Main, Main, Worker 0, Worker 0, Worker 0] s0 = Some s
         \<and> req (workers s ! 0) = Some 1
         \<and> Request.URL (requests (store s) ! 1) = Some bar_URL)"
proof -
  let ?n = "\<lparr>Do_err = None, ctx_Err = None, Copy_res = Inr ''ok'', Do_read = 34\<rparr>"
  let ?loc = "\<lparr>Location.URL = ''bar.com''\<rparr>"
  let ?sched = "[Main, Main, Worker 0, Worker 0, Worker 0]"
  note inst = worker_reparse_succeeds [of ?n ?loc scenario ?sched]
  have 1: "ValidateURL ''bar.com'' = Inr ''https://bar.com''"
    by code_simp
  have 2: "BaseRequestClone (WithTimeout Background (5 * Second))
       (case Parse ''https://bar.com'' of Inl err \<Rightarrow> None | Inr u \<Rightarrow> Some u)
     \<in> set (processLocation ?n ?loc)"
    using 1 by (simp add: processLocation_def)
  from inst [THEN conjunct2, THEN conjunct1, THEN spec, THEN spec, THEN mp, OF 2]
  have 3: "(case Parse ''https://bar.com'' of Inl err \<Rightarrow> None | Inr u \<Rightarrow> Some u) = Some bar_URL" .
  have "case main scenario of
          Inl e \<Rightarrow> False
        | Inr s0 \<Rightarrow>
            (case run (nets scenario) ?sched s0 of
               None \<Rightarrow> False
             | Some s \<Rightarrow> req (workers s ! 0) = Some 1 \<and> length (workers s) = 1)"
    by code_simp
  then obtain s0 s where 4: "main scenario = Inr s0"
    and 5: "run (nets scenario) ?sched s0 = Some s"
    and 6: "req (workers s ! 0) = Some 1" and "length (workers s) = 1"
    by (auto simp del: run.simps split: sum.splits option.splits)
  then have 7: "0 < length (workers s)" by simp
  from inst [THEN conjunct2, THEN conjunct2, THEN spec, THEN spec, THEN spec, THEN spec,
      THEN mp, THEN mp, THEN mp, THEN mp, OF 4 5 7 6]
  have 8: "Request.URL (requests (store s) ! 1) = Some bar_URL" by simp
  show ?thesis
  proof (intro conjI exI)
    show "main scenario = Inr s0" by (rule 4)
    show "run (nets scenario) ?sched s0 = Some s" by (rule 5)
    show "req (workers s ! 0) = Some 1" by (rule 6)
    show "Request.URL (requests (store s) ! 1) = Some bar_URL" by (rule 8)
  qed (rule 2, rule 3)
qed

end
